theory Spec2Isabelle
  imports Main "HOL-Library.Signed_Division" "HOL-Library.Sublist"
begin

section \<open>JavaScript values and strings\<close>

text \<open>
  Strings are lists of code units; the accented letters of the literal markup are the
  Latin-1 code units \<open>0xE0\<close>, \<open>0xE9\<close> and \<open>0xEA\<close>. A history state is any
  structured value, so it is a small datatype of JavaScript values; \<open>truthy\<close> is the
  coercion that \<^verbatim>\<open>&&\<close> and \<^verbatim>\<open>if\<close> apply, and \<open>get_prop\<close> is property access on a
  value that is neither \<^verbatim>\<open>null\<close> nor \<^verbatim>\<open>undefined\<close>.
\<close>

datatype jsval =
    Undefined
  | Null
  | Bool bool
  | Num int
  | Str string
  | Obj "(string \<times> jsval) list"

fun truthy :: "jsval \<Rightarrow> bool" where
  "truthy Undefined = False"
| "truthy Null = False"
| "truthy (Bool b) = b"
| "truthy (Num n) = (n \<noteq> 0)"
| "truthy (Str s) = (s \<noteq> [])"
| "truthy (Obj fs) = True"

fun get_prop :: "jsval \<Rightarrow> string \<Rightarrow> jsval" where
  "get_prop (Obj fs) k = (case map_of fs k of Some v \<Rightarrow> v | None \<Rightarrow> Undefined)"
| "get_prop v k = Undefined"

text \<open>
  The operator \<^verbatim>\<open>%\<close> of JavaScript is the remainder that takes the sign of the dividend
  (\<open>smod\<close>), not the mathematical modulus. The carousel indices are small integers, so
  they are \<^typ>\<open>int\<close> here.
\<close>

definition js_rem :: "int \<Rightarrow> int \<Rightarrow> int" where
  "js_rem a b = a smod b"

section \<open>The document\<close>

text \<open>
  A URL as the decomposition properties of \<^verbatim>\<open>window.location\<close> and of an anchor element
  give it. An element carries what the script reads or writes: tag name, id, class list,
  the resolved \<^verbatim>\<open>href\<close> (\<open>None\<close> when the attribute is missing or does not parse, which
  is when \<^verbatim>\<open>new URL(link.href)\<close> raises), the \<^verbatim>\<open>target\<close> attribute, and the other
  attributes by name. Whitespace-only text nodes are left out.
\<close>

record url =
  protocol :: string
  host :: string
  pathname :: string
  search :: string
  hash :: string

record element =
  tag :: string
  ident :: "string option"
  classes :: "string list"
  href :: "url option"
  target :: string
  attrs :: "(string \<times> string) list"

datatype node = Text string | Element element "node list"

text \<open>
  A reference to an element is its path from the document root: the child indices on the
  way down. The variables of the script that hold elements hold such paths.
\<close>

type_synonym path = "nat list"

fun shift :: "path \<Rightarrow> path" where
  "shift [] = []"
| "shift (k # p) = Suc k # p"

text \<open>\<^verbatim>\<open>getElementById\<close>: the first element in document order (preorder) with the given id.\<close>

fun getElementById :: "string \<Rightarrow> node list \<Rightarrow> path option" where
  "getElementById i [] = None"
| "getElementById i (Text t # ns) = map_option shift (getElementById i ns)"
| "getElementById i (Element e cs # ns) =
     (if ident e = Some i then Some [0]
      else case getElementById i cs of
             Some p \<Rightarrow> Some (0 # p)
           | None \<Rightarrow> map_option shift (getElementById i ns))"

fun node_at :: "node list \<Rightarrow> path \<Rightarrow> node option" where
  "node_at ns [] = None"
| "node_at [] (k # p) = None"
| "node_at (n # ns) (Suc k # p) = node_at ns (k # p)"
| "node_at (n # ns) [0] = Some n"
| "node_at (Element e cs # ns) (0 # k # p) = node_at cs (k # p)"
| "node_at (Text t # ns) (0 # k # p) = None"

fun update_at :: "(node \<Rightarrow> node) \<Rightarrow> path \<Rightarrow> node list \<Rightarrow> node list" where
  "update_at f [] ns = ns"
| "update_at f (k # p) [] = []"
| "update_at f (Suc k # p) (n # ns) = n # update_at f (k # p) ns"
| "update_at f [0] (n # ns) = f n # ns"
| "update_at f (0 # k # p) (Element e cs # ns) = Element e (update_at f (k # p) cs) # ns"
| "update_at f (0 # k # p) (Text t # ns) = Text t # ns"

text \<open>Assigning \<^verbatim>\<open>innerHTML\<close> replaces the children; \<^verbatim>\<open>classList\<close> is a list without repetition.\<close>

fun set_children :: "node list \<Rightarrow> node \<Rightarrow> node" where
  "set_children ks (Element e cs) = Element e ks"
| "set_children ks (Text t) = Text t"

fun map_classes :: "(string list \<Rightarrow> string list) \<Rightarrow> node \<Rightarrow> node" where
  "map_classes f (Element e cs) = Element (e\<lparr>classes := f (classes e)\<rparr>) cs"
| "map_classes f (Text t) = Text t"

fun children_of :: "node \<Rightarrow> node list" where
  "children_of (Element e cs) = cs"
| "children_of (Text t) = []"

definition classList_add :: "string \<Rightarrow> string list \<Rightarrow> string list" where
  "classList_add c cl = (if c \<in> set cl then cl else cl @ [c])"

definition classList_remove :: "string \<Rightarrow> string list \<Rightarrow> string list" where
  "classList_remove c cl = removeAll c cl"

definition classList_toggle :: "string \<Rightarrow> bool \<Rightarrow> string list \<Rightarrow> string list" where
  "classList_toggle c force cl = (if force then classList_add c cl else classList_remove c cl)"

text \<open>
  \<^verbatim>\<open>querySelectorAll('header nav a, footer a')\<close>, in document order: the \<^verbatim>\<open>a\<close> elements
  below a \<^verbatim>\<open>nav\<close> that is below a \<^verbatim>\<open>header\<close>, or below a \<^verbatim>\<open>footer\<close>. The flags say
  whether the nodes visited have a \<^verbatim>\<open>header\<close> ancestor, a \<^verbatim>\<open>nav\<close> ancestor below a
  \<^verbatim>\<open>header\<close>, a \<^verbatim>\<open>footer\<close> ancestor.
\<close>

fun nav_links :: "bool \<Rightarrow> bool \<Rightarrow> bool \<Rightarrow> node list \<Rightarrow> path list" where
  "nav_links h hn f [] = []"
| "nav_links h hn f (Text t # ns) = map shift (nav_links h hn f ns)"
| "nav_links h hn f (Element e cs # ns) =
     (if tag e = ''a'' \<and> (hn \<or> f) then [[0]] else []) @
     map ((#) 0) (nav_links (h \<or> tag e = ''header'') (hn \<or> (h \<and> tag e = ''nav''))
                    (f \<or> tag e = ''footer'') cs) @
     map shift (nav_links h hn f ns)"

text \<open>
  A statement either completes or raises; the mutations made before the exception stay,
  so both outcomes carry the state.
\<close>

datatype exn = NetworkError | PageNotFound jsval | BodyError | TypeError string | SecurityError

datatype 'a outcome = Done 'a | Thrown exn 'a

fun state_of :: "'a outcome \<Rightarrow> 'a" where
  "state_of (Done s) = s"
| "state_of (Thrown x s) = s"

section \<open>Page-specific widgets\<close>

subsection \<open>Testimonial carousel\<close>

text \<open>
  The four literal testimonial records (the fields are \<^verbatim>\<open>quote\<close>, \<^verbatim>\<open>name\<close>, \<^verbatim>\<open>title\<close>
  and \<^verbatim>\<open>avatar\<close>).
\<close>

record testimonial =
  t_quote :: string
  t_name :: string
  t_title :: string
  t_avatar :: string

definition testimonials :: "testimonial list" where
  "testimonials =
    [\<lparr>t_quote =
         ''L'accompagnement d'Impact'Oral a '' @ [CHR 0xE9] @ ''t'' @ [CHR 0xE9] @
         '' un tournant. J'' @ [CHR 0x27] @ [CHR 0xE9] @ ''tais paralys'' @ [CHR 0xE9] @
         '' par le stress, mais j'ai appris '' @ [CHR 0xE0] @ '' canaliser cette '' @
         [CHR 0xE9] @ ''nergie pour livrer une pr'' @ [CHR 0xE9] @
         ''sentation puissante. Mon jury a '' @ [CHR 0xE9] @ ''t'' @ [CHR 0xE9] @
         '' bluff'' @ [CHR 0xE9] @ ''. J'ai eu 18/20 !'',
      t_name = ''Ama'',
      t_title = [CHR 0xC9] @ ''tudiante en Master Marketing'',
      t_avatar = ''https://placehold.co/100x100/e2e8f0/334155?text=A''\<rparr>,
     \<lparr>t_quote =
         ''Au-del'' @ [CHR 0xE0] @
         '' de la soutenance, ce coaching m'a servi pour mes '' @
         ''entretiens d'embauche. J'ai gagn'' @ [CHR 0xE9] @
         '' une confiance en moi incroyable. C'est un investissement '' @
         ''pour la vie.'',
      t_name = ''Koffi'',
      t_title = ''Ing'' @ [CHR 0xE9] @ ''nieur Informatique Dipl'' @ [CHR 0xF4] @ ''m'' @ [CHR 0xE9],
      t_avatar = ''https://placehold.co/100x100/e2e8f0/334155?text=K''\<rparr>,
     \<lparr>t_quote =
         ''Le coaching m'a aid'' @ [CHR 0xE9] @ ''e '' @ [CHR 0xE0] @
         '' structurer ma pens'' @ [CHR 0xE9] @ ''e et '' @ [CHR 0xE0] @ '' pr'' @
         [CHR 0xE9] @ ''senter mes recherches complexes de mani'' @ [CHR 0xE8] @
         ''re claire et accessible. Une comp'' @ [CHR 0xE9] @
         ''tence essentielle pour ma carri'' @ [CHR 0xE8] @ ''re de chercheuse.'',
      t_name = ''Sarah'',
      t_title = ''Doctorante en Biologie'',
      t_avatar = ''https://placehold.co/100x100/e2e8f0/334155?text=S''\<rparr>,
     \<lparr>t_quote =
         ''J'ai vaincu ma peur de parler en public. Les simulations '' @ ''m'ont donn'' @
         [CHR 0xE9] @ '' la confiance n'' @ [CHR 0xE9] @ ''cessaire pour '' @
         [CHR 0xEA] @ ''tre '' @ [CHR 0xE0] @ '' l'aise et m'' @ [CHR 0xEA] @
         ''me prendre du plaisir pendant ma soutenance.'',
      t_name = ''David'',
      t_title = ''Licence en '' @ [CHR 0xC9] @ ''conomie'',
      t_avatar = ''https://placehold.co/100x100/e2e8f0/334155?text=D''\<rparr>]"

definition plain :: "string \<Rightarrow> string list \<Rightarrow> element" where
  "plain t cl = \<lparr>tag = t, ident = None, classes = cl, href = None, target = [], attrs = []\<rparr>"

text \<open>
  A card: a \<^verbatim>\<open>div\<close> of class \<^verbatim>\<open>testimonial-card\<close> whose \<^verbatim>\<open>innerHTML\<close> is the template of
  the script with the fields of the record filled in; the quote stands between double
  quotes.
\<close>

definition new_card :: "testimonial \<Rightarrow> node" where
  "new_card t =
     Element (plain ''div'' [''testimonial-card''])
       [Element (plain ''p'' [''text-gray-600'', ''italic'', ''mb-4''])
          [Text ([CHR 0x22] @ t_quote t @ [CHR 0x22])],
        Element (plain ''div'' [''flex'', ''items-center'', ''justify-center''])
          [Element ((plain ''img'' [''w-12'', ''h-12'', ''rounded-full'', ''mr-4''])
                      \<lparr>attrs := [(''src'', t_avatar t), (''alt'', ''Avatar de '' @ t_name t)]\<rparr>) [],
           Element (plain ''div'' [])
             [Element (plain ''p'' [''font-bold'', ''text-gray-800'']) [Text (t_name t)],
              Element (plain ''p'' [''text-sm'', ''text-gray-500'']) [Text (t_title t)]]]]"

definition new_dot :: node where
  "new_dot = Element (plain ''button'' [''dot'']) []"

text \<open>
  \<^verbatim>\<open>showTestimonial(index)\<close>: every card loses the five position classes and gets the one
  for its distance to \<open>index\<close>; the dot at \<open>index\<close> alone is active. The comparison
  \<^verbatim>\<open>Math.abs(diff) > cards.length / 2\<close> is on real numbers, hence \<open>2 * \<bar>diff\<bar> > n\<close>.
\<close>

definition card_position :: "int \<Rightarrow> int \<Rightarrow> int \<Rightarrow> string" where
  "card_position n index i =
     (if i = index then ''active''
      else if i = js_rem (index - 1 + n) n then ''prev''
      else if i = js_rem (index + 1) n then ''next''
      else (let diff = index - i;
                diff' = (if 2 * \<bar>diff\<bar> > n
                         then (if diff > 0 then diff - n else diff + n) else diff)
            in if diff' > 0 then ''hidden-prev'' else ''hidden-next''))"

definition clear_position :: "string list \<Rightarrow> string list" where
  "clear_position cl =
     fold classList_remove [''active'', ''prev'', ''next'', ''hidden-prev'', ''hidden-next''] cl"

definition showTestimonial_cards :: "int \<Rightarrow> node list \<Rightarrow> node list" where
  "showTestimonial_cards index cs =
     map (\<lambda>(i, card). map_classes
            (\<lambda>cl. classList_add (card_position (int (length cs)) index (int i)) (clear_position cl))
            card)
         (enumerate 0 cs)"

definition showTestimonial_dots :: "int \<Rightarrow> node list \<Rightarrow> node list" where
  "showTestimonial_dots index ds =
     map (\<lambda>(i, dot). map_classes (classList_toggle ''active'' (int i = index)) dot)
         (enumerate 0 ds)"

text \<open>
  The closure of \<^verbatim>\<open>initTestimonialCarousel\<close>: \<^verbatim>\<open>currentIndex\<close>, the cards and the dots
  (\<^verbatim>\<open>dots\<close> is the empty list when the page has no dots container). \<^verbatim>\<open>next\<close> and
  \<^verbatim>\<open>prev\<close> are called by the two buttons and, for \<^verbatim>\<open>next\<close>, by the five second timer; a
  click on the dot \<open>k\<close> sets the index to \<open>k\<close>, and only the dots that exist can be
  clicked.
\<close>

record carousel =
  currentIndex :: int
  cards :: "node list"
  dots :: "node list"

definition showTestimonial :: "int \<Rightarrow> carousel \<Rightarrow> carousel" where
  "showTestimonial index c =
     c\<lparr>cards := showTestimonial_cards index (cards c),
       dots := showTestimonial_dots index (dots c)\<rparr>"

definition carousel_initial :: "bool \<Rightarrow> carousel" where
  "carousel_initial has_dots =
     showTestimonial 0
       \<lparr>currentIndex = 0,
        cards = map new_card testimonials,
        dots = (if has_dots then map (\<lambda>t. new_dot) testimonials else [])\<rparr>"

definition carousel_next :: "carousel \<Rightarrow> carousel" where
  "carousel_next c =
     (let i = js_rem (currentIndex c + 1) (int (length (cards c)))
      in showTestimonial i (c\<lparr>currentIndex := i\<rparr>))"

definition carousel_prev :: "carousel \<Rightarrow> carousel" where
  "carousel_prev c =
     (let i = js_rem (currentIndex c - 1 + int (length (cards c))) (int (length (cards c)))
      in showTestimonial i (c\<lparr>currentIndex := i\<rparr>))"

datatype carousel_event = NextClick | PrevClick | DotClick nat | IntervalTick

fun carousel_step :: "carousel \<Rightarrow> carousel_event \<Rightarrow> carousel" where
  "carousel_step c NextClick = carousel_next c"
| "carousel_step c PrevClick = carousel_prev c"
| "carousel_step c IntervalTick = carousel_next c"
| "carousel_step c (DotClick k) =
     (if k < length (dots c) then showTestimonial (int k) (c\<lparr>currentIndex := int k\<rparr>) else c)"

text \<open>
  The effect of \<^verbatim>\<open>initTestimonialCarousel\<close> on the document. The container is emptied,
  then the dots container; an element below an emptied one leaves the document, and what
  is appended to it afterwards is not seen. \<open>strict_prefix c q\<close> says that the element
  at \<open>q\<close> is below the one at \<open>c\<close>. Appending the four cards to the emptied container
  and then setting their classes with \<^verbatim>\<open>showTestimonial(0)\<close> leaves the children written
  here. Timers and listeners do nothing to the document when they are installed.
\<close>

definition initTestimonialCarousel :: "node list \<Rightarrow> node list" where
  "initTestimonialCarousel d =
     (case getElementById ''testimonial-carousel'' d of
        None \<Rightarrow> d
      | Some c \<Rightarrow>
          let dotsContainer = getElementById ''testimonial-dots'' d;
              d1 = update_at (set_children []) c d;
              dots_ref = (case dotsContainer of
                            None \<Rightarrow> None
                          | Some q \<Rightarrow> if strict_prefix c q then None else Some q);
              d2 = (case dots_ref of None \<Rightarrow> d1 | Some q \<Rightarrow> update_at (set_children []) q d1);
              cards_attached = (case dots_ref of None \<Rightarrow> True | Some q \<Rightarrow> \<not> strict_prefix q c);
              w = carousel_initial (dotsContainer \<noteq> None);
              d3 = (if cards_attached then update_at (set_children (cards w)) c d2 else d2)
          in (case dots_ref of None \<Rightarrow> d3 | Some q \<Rightarrow> update_at (set_children (dots w)) q d3))"

text \<open>Whether \<^verbatim>\<open>initTestimonialCarousel\<close> takes the element at \<open>r\<close> out of the document.\<close>

definition carousel_detaches :: "node list \<Rightarrow> path \<Rightarrow> bool" where
  "carousel_detaches d r =
     (case getElementById ''testimonial-carousel'' d of
        None \<Rightarrow> False
      | Some c \<Rightarrow>
          strict_prefix c r \<or>
          (case getElementById ''testimonial-dots'' d of
             None \<Rightarrow> False
           | Some q \<Rightarrow> \<not> strict_prefix c q \<and> strict_prefix q r))"

subsection \<open>Forms\<close>

text \<open>
  \<^verbatim>\<open>initFormHandlers\<close> only installs listeners, but
  \<^verbatim>\<open>closeBtn.addEventListener('click', closeModal)\<close> is reached with \<^verbatim>\<open>closeBtn\<close> null
  when the page has \<^verbatim>\<open>#inscription-modal\<close> and \<^verbatim>\<open>#open-modal-btn\<close> and no
  \<^verbatim>\<open>#close-modal-btn\<close>; that raises a TypeError.
\<close>

definition initFormHandlers :: "node list \<Rightarrow> node list outcome" where
  "initFormHandlers d =
     (if getElementById ''inscription-modal'' d \<noteq> None
         \<and> getElementById ''open-modal-btn'' d \<noteq> None
         \<and> getElementById ''close-modal-btn'' d = None
      then Thrown (TypeError ''closeBtn is null'') d
      else Done d)"

text \<open>
  \<^verbatim>\<open>runPageSpecificScripts\<close>: the observers of \<^verbatim>\<open>initFadeInObserver\<close> and
  \<^verbatim>\<open>initStatsCounter\<close> and the listener of \<^verbatim>\<open>initFaqAccordion\<close> change nothing when they
  are installed and cannot raise.
\<close>

definition runPageSpecificScripts :: "node list \<Rightarrow> node list outcome" where
  "runPageSpecificScripts d = initFormHandlers (initTestimonialCarousel d)"

subsection \<open>Active link\<close>

text \<open>
  \<^verbatim>\<open>updateActiveLink\<close>: the \<^verbatim>\<open>forEach\<close> over the static list of links, in order; a link
  whose \<^verbatim>\<open>href\<close> is no URL raises and ends the loop, the links before it stay updated.
\<close>

fun updateActiveLink_each :: "string \<Rightarrow> path list \<Rightarrow> node list \<Rightarrow> node list outcome" where
  "updateActiveLink_each currentPath [] d = Done d"
| "updateActiveLink_each currentPath (q # qs) d =
     (case node_at d q of
        Some (Element e cs) \<Rightarrow>
          (case href e of
             None \<Rightarrow> Thrown (TypeError ''Invalid URL'') d
           | Some u \<Rightarrow>
               updateActiveLink_each currentPath qs
                 (update_at (map_classes
                     (if pathname u = currentPath then classList_add ''nav-link-active''
                      else classList_remove ''nav-link-active'')) q d))
      | _ \<Rightarrow> updateActiveLink_each currentPath qs d)"

definition updateActiveLink :: "string \<Rightarrow> node list \<Rightarrow> node list outcome" where
  "updateActiveLink currentPath d =
     updateActiveLink_each currentPath (nav_links False False False d) d"

section \<open>The router\<close>

text \<open>
  The state one navigation reads and writes: the title, the document, \<^verbatim>\<open>window.location\<close>,
  the session history up to the current entry (newest first; a state object and a URL),
  the scroll position, and the trace of the effects in the order in which the statements
  of the script make them.
\<close>

datatype effect =
    PreventDefault
  | PushState jsval string
  | HandlePageLoad jsval
  | ConsoleError string "exn option"
  | ClassListAdd string
  | ClassListRemove string
  | Fetch jsval
  | SetTitle string
  | SetInnerHTML "node list"
  | RunPageSpecificScripts
  | UpdateActiveLink
  | ScrollTo int int

record page =
  title :: string
  document :: "node list"
  location :: url
  history :: "(jsval \<times> string) list"
  scroll :: "int \<times> int"
  trace :: "effect list"

definition log :: "effect \<Rightarrow> page \<Rightarrow> page" where
  "log ev p = p\<lparr>trace := trace p @ [ev]\<rparr>"

text \<open>
  A mutation through a held reference: \<open>None\<close> is a reference to an element that has
  left the document, whose mutation the document does not see.
\<close>

definition on_ref :: "path option \<Rightarrow> (node \<Rightarrow> node) \<Rightarrow> page \<Rightarrow> page" where
  "on_ref r f p =
     (case r of None \<Rightarrow> p | Some q \<Rightarrow> p\<lparr>document := update_at f q (document p)\<rparr>)"

text \<open>
  What \<^verbatim>\<open>fetch(path)\<close> followed by \<^verbatim>\<open>response.text()\<close> and the HTML parser gives: the
  request is rejected, or there is a response with its \<^verbatim>\<open>ok\<close> flag and a body, which
  cannot be read or parses to a document (the HTML parser never fails).
\<close>

record fetched =
  doc_title :: string
  doc_nodes :: "node list"

datatype body = Unreadable | Html fetched

datatype response = Rejected | Response bool body

text \<open>\<^verbatim>\<open>doc.querySelector('#main-content').innerHTML\<close>, \<open>None\<close> when the selector finds nothing.\<close>

definition fetched_content :: "fetched \<Rightarrow> node list option" where
  "fetched_content doc =
     (case getElementById ''main-content'' (doc_nodes doc) of
        None \<Rightarrow> None
      | Some q \<Rightarrow> map_option children_of (node_at (doc_nodes doc) q))"

text \<open>
  The browser, as far as the router calls it and the script does not define it:
  \<^item> \<open>fetch\<close>, as described above;
  \<^item> \<open>reparse e ns\<close>, the children that the element \<open>e\<close> gets when its
    \<^verbatim>\<open>innerHTML\<close> is assigned the \<^verbatim>\<open>innerHTML\<close> read from the nodes \<open>ns\<close>: the nodes
    are serialised to a string and the string is parsed as a fragment in the context of
    \<open>e\<close>, which need not give the nodes back;
  \<^item> \<open>pushState_url loc s\<close>, what \<^verbatim>\<open>history.pushState\<close> makes of its URL argument
    \<open>s\<close> in a document at the location \<open>loc\<close>: the URL that \<open>s\<close> parses to against
    \<open>loc\<close> when the browser lets the URL of the document be rewritten to it, and
    \<open>None\<close> when it raises a SecurityError instead, which it does when \<open>s\<close> does
    not parse or names another origin.
\<close>

record browser =
  fetch :: "jsval \<Rightarrow> response"
  reparse :: "element \<Rightarrow> node list \<Rightarrow> node list"
  pushState_url :: "url \<Rightarrow> string \<Rightarrow> url option"

text \<open>\<^verbatim>\<open>mainContent.innerHTML = doc.querySelector('#main-content').innerHTML\<close> on the container.\<close>

fun assign_innerHTML :: "browser \<Rightarrow> node list \<Rightarrow> node \<Rightarrow> node" where
  "assign_innerHTML b inner (Element e cs) = Element e (reparse b e inner)"
| "assign_innerHTML b inner (Text t) = Text t"

text \<open>
  The literal fallback markup, parsed in the current document: its link \<^verbatim>\<open>href="/"\<close>
  resolves against the current location. The markup is a \<^verbatim>\<open>div\<close> with a heading, a
  paragraph and a link, which the parser builds as written.
\<close>

definition fallback_view :: "url \<Rightarrow> node list" where
  "fallback_view loc =
     [Element (plain ''div'' [''text-center'', ''py-20''])
        [Element (plain ''h1'' [''text-4xl'', ''font-bold'']) [Text ''Erreur 404''],
         Element (plain ''p'' [''mt-4''])
           [Text (''La page que vous cherchez n'a pas pu '' @ [CHR 0xEA] @ ''tre trouv''
                  @ [CHR 0xE9] @ ''e.'')],
         Element \<lparr>tag = ''a'', ident = None,
                  classes = [''mt-6'', ''inline-block'', ''text-emerald-500'', ''hover:underline''],
                  href = Some \<lparr>protocol = protocol loc, host = host loc, pathname = ''/'',
                               search = [], hash = []\<rparr>,
                  target = [], attrs = []\<rparr>
           [Text (''Retour '' @ [CHR 0xE0] @ '' l'accueil'')]]]"

text \<open>
  The \<^verbatim>\<open>try\<close> block of \<^verbatim>\<open>handlePageLoad\<close>. \<open>mc\<close> is the variable \<^verbatim>\<open>mainContent\<close>; the
  outcome carries what the variable refers to at the end, since the carousel may have
  taken the element out of the document. The event \<open>SetInnerHTML ns\<close> says that the
  container was assigned the markup of the nodes \<open>ns\<close>.
\<close>

definition try_block ::
  "browser \<Rightarrow> jsval \<Rightarrow> path \<Rightarrow> page \<Rightarrow> (path option \<times> page) outcome" where
  "try_block b path mc p =
     (let p1 = log (Fetch path) p in
      case fetch b path of
        Rejected \<Rightarrow> Thrown NetworkError (Some mc, p1)
      | Response ok text \<Rightarrow>
          if \<not> ok then Thrown (PageNotFound path) (Some mc, p1)
          else (case text of
            Unreadable \<Rightarrow> Thrown BodyError (Some mc, p1)
          | Html doc \<Rightarrow>
              let p2 = log (SetTitle (doc_title doc)) (p1\<lparr>title := doc_title doc\<rparr>) in
              (case fetched_content doc of
                 None \<Rightarrow> Thrown (TypeError ''querySelector result is null'') (Some mc, p2)
               | Some inner \<Rightarrow>
                   let p3 = log (SetInnerHTML inner) (on_ref (Some mc) (assign_innerHTML b inner) p2);
                       r = (if carousel_detaches (document p3) mc then None else Some mc);
                       p4 = log RunPageSpecificScripts p3
                   in (case runPageSpecificScripts (document p4) of
                         Thrown x d \<Rightarrow> Thrown x (r, p4\<lparr>document := d\<rparr>)
                       | Done d \<Rightarrow>
                           let p5 = log UpdateActiveLink (p4\<lparr>document := d\<rparr>) in
                           (case updateActiveLink (pathname (location p5)) (document p5) of
                              Thrown x d' \<Rightarrow> Thrown x (r, p5\<lparr>document := d'\<rparr>)
                            | Done d' \<Rightarrow>
                                let p6 = log (ScrollTo 0 0) (p5\<lparr>document := d', scroll := (0, 0)\<rparr>);
                                    p7 = log (ClassListRemove ''page-fade-out'')
                                           (on_ref r (map_classes (classList_remove ''page-fade-out'')) p6)
                                in Done (r, p7))))))"

text \<open>The \<^verbatim>\<open>catch\<close> block; none of its three statements can raise.\<close>

definition catch_block :: "exn \<Rightarrow> path option \<Rightarrow> page \<Rightarrow> page" where
  "catch_block x r p =
     (let p1 = log (ConsoleError ''Failed to load page:'' (Some x)) p;
          view = fallback_view (location p1);
          p2 = log (SetInnerHTML view) (on_ref r (set_children view) p1)
      in log (ClassListRemove ''page-fade-out'')
           (on_ref r (map_classes (classList_remove ''page-fade-out'')) p2))"

text \<open>
  \<^verbatim>\<open>handlePageLoad(path)\<close>, run to the end of its promise: \<open>Done\<close> when the promise
  resolves, \<open>Thrown\<close> when it rejects.
\<close>

definition handlePageLoad :: "browser \<Rightarrow> jsval \<Rightarrow> page \<Rightarrow> page outcome" where
  "handlePageLoad b path p =
     (let p0 = log (HandlePageLoad path) p in
      case getElementById ''main-content'' (document p0) of
        None \<Rightarrow>
          Done (log (ConsoleError ''Main content container #main-content not found!'' None) p0)
      | Some mc \<Rightarrow>
          let p1 = log (ClassListAdd ''page-fade-out'')
                     (on_ref (Some mc) (map_classes (classList_add ''page-fade-out'')) p0)
          in (case try_block b path mc p1 of
                Done (r, p2) \<Rightarrow> Done p2
              | Thrown x (r, p2) \<Rightarrow> Done (catch_block x r p2)))"

text \<open>
  The URL properties of an anchor element: one whose \<^verbatim>\<open>href\<close> is missing or does not
  parse has the protocol \<^verbatim>\<open>":"\<close> and empty strings elsewhere.
\<close>

definition link_protocol :: "element \<Rightarrow> string" where
  "link_protocol a = (case href a of None \<Rightarrow> '':'' | Some u \<Rightarrow> protocol u)"

definition link_host :: "element \<Rightarrow> string" where
  "link_host a = (case href a of None \<Rightarrow> [] | Some u \<Rightarrow> host u)"

definition link_pathname :: "element \<Rightarrow> string" where
  "link_pathname a = (case href a of None \<Rightarrow> [] | Some u \<Rightarrow> pathname u)"

definition link_search :: "element \<Rightarrow> string" where
  "link_search a = (case href a of None \<Rightarrow> [] | Some u \<Rightarrow> search u)"

definition link_hash :: "element \<Rightarrow> string" where
  "link_hash a = (case href a of None \<Rightarrow> [] | Some u \<Rightarrow> hash u)"

text \<open>
  \<^verbatim>\<open>history.pushState(state, '', url)\<close>: either the browser raises a SecurityError and
  nothing changes, or there is a new entry and the location is the parsed URL.
\<close>

definition pushState :: "browser \<Rightarrow> jsval \<Rightarrow> string \<Rightarrow> page \<Rightarrow> page outcome" where
  "pushState b st u p =
     (case pushState_url b (location p) u of
        None \<Rightarrow> Thrown SecurityError p
      | Some new \<Rightarrow>
          Done (log (PushState st u) (p\<lparr>history := (st, u) # history p, location := new\<rparr>)))"

text \<open>
  A click event: \<open>link\<close> is \<^verbatim>\<open>e.target.closest('a')\<close>, and the four modifier flags are
  the fields of the event that say which keys were held. The handler answers whether it
  called \<^verbatim>\<open>preventDefault\<close>, the state at the end of the load it started, if any, and
  the exception that ended it, if one did. \<^verbatim>\<open>handlePageLoad\<close> is not awaited, so nothing
  it does can end the handler.
\<close>

record click_event =
  link :: "element option"
  ctrlKey :: bool
  metaKey :: bool
  shiftKey :: bool
  altKey :: bool

record click_result =
  defaultPrevented :: bool
  after :: page
  raised :: "exn option"

definition on_click :: "browser \<Rightarrow> page \<Rightarrow> click_event \<Rightarrow> click_result" where
  "on_click b p e =
     (case link e of
        None \<Rightarrow> \<lparr>defaultPrevented = False, after = p, raised = None\<rparr>
      | Some a \<Rightarrow>
          let isExternal = (target a = ''_blank''
                            \<or> link_protocol a \<noteq> protocol (location p)
                            \<or> link_host a \<noteq> host (location p));
              isAnchor = (link_hash a \<noteq> [] \<and> link_pathname a = pathname (location p))
          in if isExternal \<or> isAnchor
             then \<lparr>defaultPrevented = False, after = p, raised = None\<rparr>
             else
               let p1 = log PreventDefault p;
                   newPath = link_pathname a @ link_search a
               in if newPath \<noteq> pathname (location p1) @ search (location p1)
                  then (case pushState b (Obj [(''path'', Str newPath)]) newPath p1 of
                          Thrown x p2 \<Rightarrow> \<lparr>defaultPrevented = True, after = p2, raised = Some x\<rparr>
                        | Done p2 \<Rightarrow>
                            \<lparr>defaultPrevented = True,
                             after = state_of (handlePageLoad b (Str newPath) p2),
                             raised = None\<rparr>)
                  else \<lparr>defaultPrevented = True, after = p1, raised = None\<rparr>)"

text \<open>The \<^verbatim>\<open>popstate\<close> listener; \<open>st\<close> is \<^verbatim>\<open>e.state\<close>.\<close>

definition on_popstate :: "browser \<Rightarrow> jsval \<Rightarrow> page \<Rightarrow> page outcome" where
  "on_popstate b st p =
     (if truthy st \<and> truthy (get_prop st ''path'')
      then handlePageLoad b (get_prop st ''path'') p
      else Done p)"

section \<open>Notions used in the statements\<close>

text \<open>
  The label of a node is the node without its children: what an element is by itself.
  \<open>label_at d q\<close> is the label of the node at the path \<open>q\<close> of the document \<open>d\<close>,
  if there is one.
\<close>

fun label :: "node \<Rightarrow> node" where
  "label (Element e cs) = Element e []"
| "label (Text t) = Text t"

definition label_at :: "node list \<Rightarrow> path \<Rightarrow> node option" where
  "label_at d q = map_option label (node_at d q)"

text \<open>All nodes of a forest, in document order.\<close>

fun descendants :: "node list \<Rightarrow> node list" where
  "descendants [] = []"
| "descendants (Text t # ns) = Text t # descendants ns"
| "descendants (Element e cs # ns) = Element e cs # descendants cs @ descendants ns"

text \<open>A mutation of an element that leaves its id alone, as the two the router makes do.\<close>

definition keeps_ident :: "(node \<Rightarrow> node) \<Rightarrow> bool" where
  "keeps_ident f \<longleftrightarrow>
     (\<forall>e cs. \<exists>e' cs'. f (Element e cs) = Element e' cs' \<and> ident e' = ident e)"

text \<open>
  What the \<^verbatim>\<open>catch\<close> block makes of the content container, from the element as it
  was before the call: the fallback view for children, and no \<^verbatim>\<open>page-fade-out\<close> class.
\<close>

definition show_fallback :: "url \<Rightarrow> node \<Rightarrow> node" where
  "show_fallback loc n =
     map_classes (classList_remove ''page-fade-out'')
       (set_children (fallback_view loc) (map_classes (classList_add ''page-fade-out'') n))"

text \<open>
  The document right after \<^verbatim>\<open>mainContent.innerHTML = ...\<close> in the \<^verbatim>\<open>try\<close> block: the
  container has the class \<^verbatim>\<open>page-fade-out\<close> and the fetched markup, as the browser
  parses it there.
\<close>

definition swap_content :: "browser \<Rightarrow> path \<Rightarrow> node list \<Rightarrow> node list \<Rightarrow> node list" where
  "swap_content b mc inner d =
     update_at (assign_innerHTML b inner) mc
       (update_at (map_classes (classList_add ''page-fade-out'')) mc d)"

text \<open>
  A node without the class that \<^verbatim>\<open>updateActiveLink\<close> sets and clears, and the paths of
  the two containers that \<^verbatim>\<open>initTestimonialCarousel\<close> empties and refills.
\<close>

definition strip_active :: "node \<Rightarrow> node" where
  "strip_active = map_classes (classList_remove ''nav-link-active'')"

definition carousel_containers :: "node list \<Rightarrow> path list" where
  "carousel_containers d =
     (case getElementById ''testimonial-carousel'' d of
        None \<Rightarrow> []
      | Some c \<Rightarrow> c # (case getElementById ''testimonial-dots'' d of None \<Rightarrow> [] | Some q \<Rightarrow> [q]))"


text \<open>The calls of \<^verbatim>\<open>handlePageLoad\<close> in a trace.\<close>

fun is_page_load :: "effect \<Rightarrow> bool" where
  "is_page_load (HandlePageLoad v) = True"
| "is_page_load ev = False"

text \<open>The calls of \<^verbatim>\<open>handlePageLoad\<close> that a click handler run from the state \<open>p\<close> made.\<close>

definition page_loads :: "page \<Rightarrow> click_result \<Rightarrow> effect list" where
  "page_loads p r = filter is_page_load (drop (length (trace p)) (trace (after r)))"

text \<open>What holds of the carousel after any sequence of clicks and timer ticks.\<close>

definition carousel_inv :: "carousel \<Rightarrow> bool" where
  "carousel_inv c \<longleftrightarrow>
     length (cards c) = 4 \<and> length (dots c) \<le> 4 \<and> 0 \<le> currentIndex c \<and> currentIndex c < 4"

section \<open>A small site\<close>

text \<open>
  A shell with a header of two navigation links and the content container, shown at the
  root path; the page \<^verbatim>\<open>/about\<close> exists, \<^verbatim>\<open>/offline\<close> cannot be reached, and a
  path that is not listed is answered with a status that is not ok.
\<close>

definition example_location :: url where
  "example_location =
     \<lparr>protocol = ''https:'', host = ''site.test'', pathname = ''/'', search = [], hash = []\<rparr>"

definition example_main :: element where
  "example_main =
     \<lparr>tag = ''main'', ident = Some ''main-content'', classes = [], href = None, target = [],
      attrs = []\<rparr>"

definition example_link :: "string \<Rightarrow> string \<Rightarrow> element" where
  "example_link pn h =
     \<lparr>tag = ''a'', ident = None, classes = [],
      href = Some (example_location\<lparr>pathname := pn, hash := h\<rparr>), target = [], attrs = []\<rparr>"

definition example_document :: "node list" where
  "example_document =
     [Element (plain ''header'' [])
        [Element (plain ''nav'' [])
           [Element (example_link ''/'' []) [], Element (example_link ''/about'' []) []]],
      Element example_main [Text ''home'']]"

definition example_page :: page where
  "example_page =
     \<lparr>title = ''Home'', document = example_document, location = example_location,
      history = [], scroll = (0, 120), trace = []\<rparr>"

definition example_about :: fetched where
  "example_about =
     \<lparr>doc_title = ''About'', doc_nodes = [Element example_main [Text ''about us'']]\<rparr>"

text \<open>
  The page \<^verbatim>\<open>/join\<close> has the inscription modal and the button that opens it, and no
  button that closes it; the page \<^verbatim>\<open>/empty\<close> has no content container.
\<close>

definition example_join :: fetched where
  "example_join =
     \<lparr>doc_title = ''Join'',
      doc_nodes =
        [Element example_main
           [Element ((plain ''div'' [''hidden''])\<lparr>ident := Some ''inscription-modal''\<rparr>) [],
            Element ((plain ''button'' [])\<lparr>ident := Some ''open-modal-btn''\<rparr>) []]]\<rparr>"

definition example_empty :: fetched where
  "example_empty = \<lparr>doc_title = ''Empty'', doc_nodes = []\<rparr>"

fun example_fetch :: "jsval \<Rightarrow> response" where
  "example_fetch v =
     (if v = Str ''/about'' then Response True (Html example_about)
      else if v = Str ''/join'' then Response True (Html example_join)
      else if v = Str ''/empty'' then Response True (Html example_empty)
      else if v = Str ''/offline'' then Rejected
      else Response False Unreadable)"

text \<open>
  The URL parser on the references that the router passes to \<^verbatim>\<open>pushState\<close>, which are
  a path followed by a query: a reference that starts with two slashes (the second may
  be a backslash) names its own host, after any further slashes; one that starts with
  one slash keeps the host of the base. No other reference is parsed here. The site is
  served over \<^verbatim>\<open>https\<close>, where \<^verbatim>\<open>pushState\<close> accepts the URLs of the origin of the
  document and raises on the others. The markup of the example pages has no element
  that the parser moves or drops in the container, so reparsing gives the nodes back.
\<close>

definition is_delimiter :: "char \<Rightarrow> bool" where
  "is_delimiter c \<longleftrightarrow> c \<in> {CHR ''/'', CHR 0x5C, CHR ''?'', CHR ''#''}"

definition split_reference :: "url \<Rightarrow> string \<Rightarrow> url" where
  "split_reference u s =
     (let pn = takeWhile (\<lambda>c. c \<noteq> CHR ''?'' \<and> c \<noteq> CHR ''#'') s;
          rest = dropWhile (\<lambda>c. c \<noteq> CHR ''?'' \<and> c \<noteq> CHR ''#'') s;
          q = takeWhile (\<lambda>c. c \<noteq> CHR ''#'') rest;
          h = dropWhile (\<lambda>c. c \<noteq> CHR ''#'') rest
      in u\<lparr>pathname := (if pn = [] then ''/'' else pn),
           search := (if q = ''?'' then [] else q),
           hash := (if h = ''#'' then [] else h)\<rparr>)"

definition example_parse_url :: "url \<Rightarrow> string \<Rightarrow> url option" where
  "example_parse_url base s =
     (if take 2 s = ''//'' \<or> take 2 s = [CHR ''/'', CHR 0x5C]
      then (let r = dropWhile (\<lambda>c. c = CHR ''/'' \<or> c = CHR 0x5C) (drop 2 s);
                h = takeWhile (\<lambda>c. \<not> is_delimiter c) r
            in if h = [] then None
               else Some (split_reference (base\<lparr>host := h\<rparr>)
                            (dropWhile (\<lambda>c. \<not> is_delimiter c) r)))
      else if take 1 s = ''/'' then Some (split_reference base s)
      else None)"

definition example_pushState_url :: "url \<Rightarrow> string \<Rightarrow> url option" where
  "example_pushState_url loc s =
     (case example_parse_url loc s of
        None \<Rightarrow> None
      | Some u \<Rightarrow> if protocol u = protocol loc \<and> host u = host loc then Some u else None)"

definition example_browser :: browser where
  "example_browser =
     \<lparr>fetch = example_fetch, reparse = (\<lambda>e ns. ns),
      pushState_url = example_pushState_url\<rparr>"

definition example_click :: "element \<Rightarrow> click_event" where
  "example_click a =
     \<lparr>link = Some a, ctrlKey = False, metaKey = False, shiftKey = False, altKey = False\<rparr>"

section \<open>Properties\<close>

subsection \<open>Carousel\<close>

lemma js_rem_nonneg: "0 \<le> a \<Longrightarrow> 0 < b \<Longrightarrow> js_rem a b = a mod b"
  by (simp add: js_rem_def smod_int_alt_def sgn_if)

lemma length_showTestimonial_cards [simp]: "length (showTestimonial_cards i cs) = length cs"
  by (simp add: showTestimonial_cards_def)

lemma length_showTestimonial_dots [simp]: "length (showTestimonial_dots i ds) = length ds"
  by (simp add: showTestimonial_dots_def)

lemma showTestimonial_fields [simp]:
  "currentIndex (showTestimonial i c) = currentIndex c"
  "length (cards (showTestimonial i c)) = length (cards c)"
  "length (dots (showTestimonial i c)) = length (dots c)"
  by (simp_all add: showTestimonial_def)

lemma carousel_inv_initial: "carousel_inv (carousel_initial has_dots)"
  by (simp add: carousel_inv_def carousel_initial_def testimonials_def)

lemma carousel_next_index:
  assumes "0 \<le> currentIndex c" and "cards c \<noteq> []"
  shows "currentIndex (carousel_next c) = (currentIndex c + 1) mod int (length (cards c))"
  using assms by (simp add: carousel_next_def Let_def js_rem_nonneg)

lemma carousel_prev_index:
  assumes "0 \<le> currentIndex c" and "cards c \<noteq> []"
  shows "currentIndex (carousel_prev c) =
           (currentIndex c - 1 + int (length (cards c))) mod int (length (cards c))"
proof -
  have pos: "0 < int (length (cards c))" using assms(2) by simp
  then have "0 \<le> currentIndex c - 1 + int (length (cards c))"
    using assms(1) by linarith
  then have "js_rem (currentIndex c - 1 + int (length (cards c))) (int (length (cards c)))
      = (currentIndex c - 1 + int (length (cards c))) mod int (length (cards c))"
    using pos by (rule js_rem_nonneg)
  then show ?thesis by (simp add: carousel_prev_def Let_def)
qed

lemma carousel_inv_next: "carousel_inv c \<Longrightarrow> carousel_inv (carousel_next c)"
  by (auto simp: carousel_inv_def carousel_next_def Let_def js_rem_nonneg)

lemma carousel_inv_prev: "carousel_inv c \<Longrightarrow> carousel_inv (carousel_prev c)"
  by (auto simp: carousel_inv_def carousel_prev_def Let_def js_rem_nonneg)

lemma carousel_inv_step: "carousel_inv c \<Longrightarrow> carousel_inv (carousel_step c ev)"
proof (cases ev)
  case (DotClick k)
  assume "carousel_inv c"
  then show ?thesis using DotClick by (auto simp: carousel_inv_def)
qed (simp_all add: carousel_inv_next carousel_inv_prev)

lemma carousel_inv_run: "carousel_inv c \<Longrightarrow> carousel_inv (foldl carousel_step c evs)"
  by (induction evs arbitrary: c) (simp_all add: carousel_inv_step)

text \<open>
  C8. Let \<open>c\<close> be the carousel after any sequence of button clicks, dot clicks and timer
  ticks, and \<open>N\<close> its number of cards. Then \<open>N = 4\<close>, the index is in \<open>[0, N - 1]\<close>,
  \<^verbatim>\<open>next()\<close> takes the index \<open>i\<close> to \<open>(i + 1) mod N\<close> and \<^verbatim>\<open>prev()\<close> takes it to
  \<open>(i - 1 + N) mod N\<close>, both stay in \<open>[0, N - 1]\<close>, \<^verbatim>\<open>next()\<close> from \<open>N - 1\<close> gives \<open>0\<close>
  and \<^verbatim>\<open>prev()\<close> from \<open>0\<close> gives \<open>N - 1\<close>.
\<close>

theorem carousel_index_cycles:
  fixes evs :: "carousel_event list" and has_dots :: bool
  defines "c \<equiv> foldl carousel_step (carousel_initial has_dots) evs"
  defines "N \<equiv> int (length (cards c))"
  shows "N = 4
    \<and> 0 \<le> currentIndex c \<and> currentIndex c \<le> N - 1
    \<and> currentIndex (carousel_next c) = (currentIndex c + 1) mod N
    \<and> currentIndex (carousel_prev c) = (currentIndex c - 1 + N) mod N
    \<and> 0 \<le> currentIndex (carousel_next c) \<and> currentIndex (carousel_next c) \<le> N - 1
    \<and> 0 \<le> currentIndex (carousel_prev c) \<and> currentIndex (carousel_prev c) \<le> N - 1
    \<and> (currentIndex c = N - 1 \<longrightarrow> currentIndex (carousel_next c) = 0)
    \<and> (currentIndex c = 0 \<longrightarrow> currentIndex (carousel_prev c) = N - 1)"
proof -
  have inv: "carousel_inv c"
    unfolding c_def by (rule carousel_inv_run [OF carousel_inv_initial])
  then have n: "N = 4" and lo: "0 \<le> currentIndex c" and hi: "currentIndex c < 4"
    and ne: "cards c \<noteq> []"
    by (auto simp: carousel_inv_def N_def)
  have nx: "currentIndex (carousel_next c) = (currentIndex c + 1) mod N"
    unfolding N_def by (rule carousel_next_index [OF lo ne])
  have pv: "currentIndex (carousel_prev c) = (currentIndex c - 1 + N) mod N"
    unfolding N_def by (rule carousel_prev_index [OF lo ne])
  show ?thesis using n lo hi nx pv by auto
qed

lemma currentIndex_initial: "currentIndex (carousel_initial has_dots) = 0"
  by (simp add: carousel_initial_def)

theorem carousel_index_cycles_witness:
  "currentIndex (carousel_prev (foldl carousel_step (carousel_initial True) [])) = 3
   \<and> currentIndex (carousel_next (foldl carousel_step (carousel_initial True) [DotClick 3])) = 0"
proof -
  have a: "currentIndex (foldl carousel_step (carousel_initial True) []) = 0"
    by (simp add: currentIndex_initial)
  have "length (dots (carousel_initial True)) = 4"
    by (simp add: carousel_initial_def testimonials_def)
  then have b: "currentIndex (foldl carousel_step (carousel_initial True) [DotClick 3]) = 3"
    by simp
  show ?thesis
    using carousel_index_cycles [of True "[]"] carousel_index_cycles [of True "[DotClick 3]"] a b
    by simp
qed

subsection \<open>Documents and paths\<close>

lemma shift_eq_Nil [simp]: "shift q = [] \<longleftrightarrow> q = []"
  by (cases q) simp_all

lemma node_at_Cons_0:
  "node_at (n # ns) (0 # r) = (if r = [] then Some n else node_at (children_of n) r)"
  by (cases n; cases r) simp_all

lemma update_at_Cons_0:
  "update_at f (0 # r) (n # ns) =
     (if r = [] then f n # ns else set_children (update_at f r (children_of n)) n # ns)"
  by (cases n; cases r) simp_all

lemma node_at_Nil [simp]: "node_at [] r = None"
  by (cases r) simp_all

lemma update_at_Nil [simp]: "update_at f r [] = []"
  by (cases r) simp_all

lemma label_set_children [simp]: "label (set_children ks n) = label n"
  by (cases n) simp_all

lemma node_at_update_same: "node_at (update_at f q d) q = map_option f (node_at d q)"
  by (induction f q d rule: update_at.induct) simp_all

lemma update_at_twice: "update_at g q (update_at f q d) = update_at (g \<circ> f) q d"
  by (induction f q d rule: update_at.induct) simp_all

lemma label_at_update_outside:
  "\<not> prefix q r \<Longrightarrow> label_at (update_at f q d) r = label_at d r"
proof (induction f q d arbitrary: r rule: update_at.induct)
  case (3 f k p n ns)
  show ?case
  proof (cases r)
    case Nil
    then show ?thesis by (simp add: label_at_def)
  next
    case (Cons j r')
    show ?thesis
    proof (cases j)
      case 0
      then show ?thesis using Cons by (simp add: label_at_def node_at_Cons_0)
    next
      case (Suc j')
      then have "\<not> prefix (k # p) (j' # r')" using 3(2) Cons by simp
      from 3(1)[OF this] show ?thesis using Cons Suc by (simp add: label_at_def)
    qed
  qed
next
  case (4 f n ns)
  then show ?case by (cases r; cases "hd r") (auto simp: label_at_def)
next
  case (5 f k p e cs ns)
  show ?case
  proof (cases r)
    case Nil
    then show ?thesis by (simp add: label_at_def)
  next
    case (Cons j r')
    show ?thesis
    proof (cases j)
      case 0
      show ?thesis
      proof (cases r')
        case Nil
        then show ?thesis using Cons 0 by (simp add: label_at_def)
      next
        case (Cons j2 r2)
        then have "\<not> prefix (k # p) r'" using 5(2) \<open>r = j # r'\<close> 0 by simp
        from 5(1)[OF this] show ?thesis using Cons \<open>r = j # r'\<close> 0 by (simp add: label_at_def)
      qed
    next
      case (Suc j')
      then show ?thesis using Cons by (simp add: label_at_def)
    qed
  qed
qed (simp_all add: label_at_def)


lemma keeps_ident_set_children: "keeps_ident (set_children ks)"
  by (simp add: keeps_ident_def)

lemma keeps_ident_map_classes: "keeps_ident (map_classes g)"
  by (simp add: keeps_ident_def)

lemma getElementById_nonempty: "getElementById i d = Some q \<Longrightarrow> q \<noteq> []"
  by (induction i d arbitrary: q rule: getElementById.induct)
     (auto split: if_splits option.splits)

lemma node_at_shift: "q \<noteq> [] \<Longrightarrow> node_at (n # ns) (shift q) = node_at ns q"
  by (cases q) simp_all

lemma update_at_shift: "q \<noteq> [] \<Longrightarrow> update_at f (shift q) (n # ns) = n # update_at f q ns"
  by (cases q) simp_all

lemma node_at_zero_cons:
  "q \<noteq> [] \<Longrightarrow> node_at (Element e cs # ns) (0 # q) = node_at cs q"
  by (cases q) simp_all

lemma update_at_zero_cons:
  "q \<noteq> [] \<Longrightarrow> update_at f (0 # q) (Element e cs # ns) = Element e (update_at f q cs) # ns"
  by (cases q) simp_all

lemma getElementById_element:
  "getElementById i d = Some q \<Longrightarrow> \<exists>e cs. node_at d q = Some (Element e cs) \<and> ident e = Some i"
proof (induction i d arbitrary: q rule: getElementById.induct)
  case (1 i)
  then show ?case by simp
next
  case (2 i t ns)
  then obtain q' where q': "getElementById i ns = Some q'" "q = shift q'" by auto
  then show ?case using 2(1)[OF q'(1)] getElementById_nonempty[OF q'(1)]
    by (simp add: node_at_shift)
next
  case (3 i e cs ns)
  show ?case
  proof (cases "ident e = Some i")
    case True
    then show ?thesis using 3(3) by auto
  next
    case False
    show ?thesis
    proof (cases "getElementById i cs")
      case None
      then obtain q' where q': "getElementById i ns = Some q'" "q = shift q'"
        using 3(3) False by auto
      then show ?thesis using 3(2)[OF False None q'(1)] getElementById_nonempty[OF q'(1)]
        by (simp add: node_at_shift)
    next
      case (Some q')
      then have "q = 0 # q'" using 3(3) False by simp
      then show ?thesis using 3(1)[OF False Some] getElementById_nonempty[OF Some]
        by (simp add: node_at_zero_cons)
    qed
  qed
qed

lemma getElementById_update:
  "keeps_ident f \<Longrightarrow> getElementById i d = Some q \<Longrightarrow> getElementById i (update_at f q d) = Some q"
proof (induction i d arbitrary: q rule: getElementById.induct)
  case (1 i)
  then show ?case by simp
next
  case (2 i t ns)
  then obtain q' where q': "getElementById i ns = Some q'" "q = shift q'" by auto
  then show ?case using 2(1)[OF 2(2) q'(1)] getElementById_nonempty[OF q'(1)]
    by (simp add: update_at_shift)
next
  case (3 i e cs ns)
  show ?case
  proof (cases "ident e = Some i")
    case True
    then have "q = [0]" using 3(4) by simp
    moreover obtain e' cs' where "f (Element e cs) = Element e' cs'" "ident e' = ident e"
      using 3(3) unfolding keeps_ident_def by blast
    ultimately show ?thesis using True by simp
  next
    case False
    show ?thesis
    proof (cases "getElementById i cs")
      case None
      then obtain q' where q': "getElementById i ns = Some q'" "q = shift q'"
        using 3(4) False by auto
      then show ?thesis
        using 3(2)[OF False None 3(3) q'(1)] getElementById_nonempty[OF q'(1)] False None
        by (simp add: update_at_shift)
    next
      case (Some q')
      then have "q = 0 # q'" using 3(4) False by simp
      then show ?thesis using 3(1)[OF False 3(3) Some] getElementById_nonempty[OF Some] False
        by (simp add: update_at_zero_cons)
    qed
  qed
qed


lemma try_block_trace:
  "\<exists>evs. trace (snd (state_of (try_block b path mc p))) = trace p @ evs
         \<and> filter is_page_load evs = []
         \<and> history (snd (state_of (try_block b path mc p))) = history p
         \<and> location (snd (state_of (try_block b path mc p))) = location p"
  by (auto simp: try_block_def Let_def log_def on_ref_def
           split: response.splits body.splits option.splits outcome.splits)

lemma catch_block_trace:
  "\<exists>evs. trace (catch_block x r p) = trace p @ evs \<and> filter is_page_load evs = []
        \<and> history (catch_block x r p) = history p \<and> location (catch_block x r p) = location p"
  by (auto simp: catch_block_def Let_def log_def on_ref_def split: option.splits)

lemma handlePageLoad_resolves: "\<exists>p'. handlePageLoad b path p = Done p'"
  by (auto simp: handlePageLoad_def Let_def split: option.splits outcome.splits)

lemma handlePageLoad_trace:
  "\<exists>evs. trace (state_of (handlePageLoad b path p)) = trace p @ HandlePageLoad path # evs
         \<and> filter is_page_load evs = []
         \<and> history (state_of (handlePageLoad b path p)) = history p
         \<and> location (state_of (handlePageLoad b path p)) = location p"
proof (cases "getElementById ''main-content'' (document p)")
  case None
  then show ?thesis by (simp add: handlePageLoad_def log_def)
next
  case (Some mc)
  define p1 where "p1 = log (ClassListAdd ''page-fade-out'')
       (on_ref (Some mc) (map_classes (classList_add ''page-fade-out'')) (log (HandlePageLoad path) p))"
  have p1: "trace p1 = trace p @ [HandlePageLoad path, ClassListAdd ''page-fade-out'']"
    "history p1 = history p" "location p1 = location p"
    by (simp_all add: p1_def log_def on_ref_def)
  obtain evs where evs: "trace (snd (state_of (try_block b path mc p1))) = trace p1 @ evs"
    "filter is_page_load evs = []"
    "history (snd (state_of (try_block b path mc p1))) = history p1"
    "location (snd (state_of (try_block b path mc p1))) = location p1"
    using try_block_trace [of b path mc p1] by blast
  show ?thesis
  proof (cases "try_block b path mc p1")
    case (Done s)
    then have "handlePageLoad b path p = Done (snd s)"
      using Some by (simp add: handlePageLoad_def Let_def p1_def log_def split: prod.splits)
    then show ?thesis using evs p1 Done by simp
  next
    case (Thrown x s)
    obtain evs' where evs': "trace (catch_block x (fst s) (snd s)) = trace (snd s) @ evs'"
      "filter is_page_load evs' = []"
      "history (catch_block x (fst s) (snd s)) = history (snd s)"
      "location (catch_block x (fst s) (snd s)) = location (snd s)"
      using catch_block_trace [of x "fst s" "snd s"] by blast
    have "handlePageLoad b path p = Done (catch_block x (fst s) (snd s))"
      using Some Thrown by (simp add: handlePageLoad_def Let_def p1_def log_def split: prod.splits)
    then show ?thesis using evs evs' p1 Thrown by simp
  qed
qed


lemma handlePageLoad_location:
  "location (state_of (handlePageLoad b path p)) = location p"
  using handlePageLoad_trace [of b path p] by blast

lemma handlePageLoad_history:
  "history (state_of (handlePageLoad b path p)) = history p"
  using handlePageLoad_trace [of b path p] by blast

subsection \<open>Router: clicks and history events\<close>

lemma on_click_reads_link_only:
  "link e1 = link e2 \<Longrightarrow> on_click b p e1 = on_click b p e2"
  by (simp add: on_click_def)

lemma pushState_accepts:
  assumes "pushState_url b (location p) u = Some new"
  shows "pushState b st u p =
           Done (log (PushState st u) (p\<lparr>history := (st, u) # history p, location := new\<rparr>))"
  using assms by (simp add: pushState_def)

lemma pushState_refuses:
  assumes "pushState_url b (location p) u = None"
  shows "pushState b st u p = Thrown SecurityError p"
  using assms by (simp add: pushState_def)

text \<open>The handler on an in-site link that is not a same-page anchor, by cases.\<close>

lemma on_click_in_site:
  assumes "link e = Some a"
      and "target a \<noteq> ''_blank''"
      and "link_protocol a = protocol (location p)"
      and "link_host a = host (location p)"
      and "\<not> (link_hash a \<noteq> [] \<and> link_pathname a = pathname (location p))"
  shows "on_click b p e =
     (if link_pathname a @ link_search a = pathname (location p) @ search (location p)
      then \<lparr>defaultPrevented = True, after = log PreventDefault p, raised = None\<rparr>
      else (case pushState b (Obj [(''path'', Str (link_pathname a @ link_search a))])
                   (link_pathname a @ link_search a) (log PreventDefault p) of
              Thrown x p2 \<Rightarrow> \<lparr>defaultPrevented = True, after = p2, raised = Some x\<rparr>
            | Done p2 \<Rightarrow>
                \<lparr>defaultPrevented = True,
                 after = state_of (handlePageLoad b (Str (link_pathname a @ link_search a)) p2),
                 raised = None\<rparr>))"
proof -
  have "\<not> (target a = ''_blank'' \<or> link_protocol a \<noteq> protocol (location p)
            \<or> link_host a \<noteq> host (location p))"
    using assms(2,3,4) by simp
  then show ?thesis
    using assms(1,5) by (auto simp: on_click_def Let_def log_def)
qed

lemma on_click_prevents:
  assumes "link e = Some a"
      and "target a \<noteq> ''_blank''"
      and "link_protocol a = protocol (location p)"
      and "link_host a = host (location p)"
      and "\<not> (link_hash a \<noteq> [] \<and> link_pathname a = pathname (location p))"
  shows "defaultPrevented (on_click b p e)"
  unfolding on_click_in_site [OF assms] by (simp split: outcome.splits)

text \<open>
  When the path and query of the link differ from the current ones and \<^verbatim>\<open>pushState\<close>
  accepts them: one entry is pushed, and \<^verbatim>\<open>handlePageLoad\<close> is called exactly once, with the
  path and query of the link.
\<close>

lemma on_click_in_site_loads:
  assumes "link e = Some a"
      and "target a \<noteq> ''_blank''"
      and "link_protocol a = protocol (location p)"
      and "link_host a = host (location p)"
      and "\<not> (link_hash a \<noteq> [] \<and> link_pathname a = pathname (location p))"
      and "link_pathname a @ link_search a \<noteq> pathname (location p) @ search (location p)"
      and "pushState_url b (location p) (link_pathname a @ link_search a) = Some new"
  shows "raised (on_click b p e) = None"
    and "page_loads p (on_click b p e) = [HandlePageLoad (Str (link_pathname a @ link_search a))]"
    and "history (after (on_click b p e)) =
           (Obj [(''path'', Str (link_pathname a @ link_search a))],
            link_pathname a @ link_search a) # history p"
    and "location (after (on_click b p e)) = new"
    and "take 2 (drop (length (trace p)) (trace (after (on_click b p e)))) =
           [PreventDefault,
            PushState (Obj [(''path'', Str (link_pathname a @ link_search a))])
              (link_pathname a @ link_search a)]"
proof -
  let ?new = "link_pathname a @ link_search a"
  let ?st = "Obj [(''path'', Str ?new)]"
  let ?p1 = "log PreventDefault p"
  let ?p2 = "log (PushState ?st ?new) (?p1\<lparr>history := (?st, ?new) # history ?p1, location := new\<rparr>)"
  have "pushState b ?st ?new ?p1 = Done ?p2"
    by (rule pushState_accepts) (simp add: assms(7) log_def)
  then have r: "on_click b p e =
      \<lparr>defaultPrevented = True, after = state_of (handlePageLoad b (Str ?new) ?p2), raised = None\<rparr>"
    using assms(6) by (simp add: on_click_in_site [OF assms(1-5)])
  have p2: "trace ?p2 = trace p @ [PreventDefault, PushState ?st ?new]"
    "history ?p2 = (?st, ?new) # history p" "location ?p2 = new"
    by (simp_all add: log_def)
  obtain evs where evs:
    "trace (state_of (handlePageLoad b (Str ?new) ?p2)) = trace ?p2 @ HandlePageLoad (Str ?new) # evs"
    "filter is_page_load evs = []"
    "history (state_of (handlePageLoad b (Str ?new) ?p2)) = history ?p2"
    "location (state_of (handlePageLoad b (Str ?new) ?p2)) = location ?p2"
    using handlePageLoad_trace [of b "Str ?new" ?p2] by blast
  show "raised (on_click b p e) = None" by (simp add: r)
  have t: "trace (after (on_click b p e)) =
             trace p @ [PreventDefault, PushState ?st ?new] @ HandlePageLoad (Str ?new) # evs"
    unfolding r using evs(1) p2(1) by simp
  show "page_loads p (on_click b p e) = [HandlePageLoad (Str ?new)]"
    unfolding page_loads_def t using evs(2) by simp
  show "history (after (on_click b p e)) = (?st, ?new) # history p"
    unfolding r using evs(3) p2(2) by simp
  show "location (after (on_click b p e)) = new"
    unfolding r using evs(4) p2(3) by simp
  show "take 2 (drop (length (trace p)) (trace (after (on_click b p e)))) =
          [PreventDefault, PushState ?st ?new]"
    unfolding t by simp
qed

text \<open>
  C7. A click on a same-page anchor link (the pathname of the link is that of the current
  location and its fragment is not empty) is not intercepted: the handler returns without
  \<^verbatim>\<open>preventDefault\<close>, and the state, its history and its trace are as before, so nothing
  was pushed and no page load was started.
\<close>

theorem same_page_anchor_not_intercepted:
  assumes "link e = Some a"
      and "link_hash a \<noteq> []"
      and "link_pathname a = pathname (location p)"
  shows "on_click b p e = \<lparr>defaultPrevented = False, after = p, raised = None\<rparr>"
  using assms by (simp add: on_click_def)

theorem same_page_anchor_not_intercepted_witness:
  "on_click example_browser example_page (example_click (example_link ''/'' ''#top'')) =
     \<lparr>defaultPrevented = False, after = example_page, raised = None\<rparr>"
  using same_page_anchor_not_intercepted
          [of "example_click (example_link ''/'' ''#top'')" "example_link ''/'' ''#top''"
              example_page example_browser]
  by (simp add: example_click_def example_link_def example_page_def example_location_def
        link_hash_def link_pathname_def)

text \<open>
  C10. Two click events on the same in-site link that is not a same-page anchor, whatever
  their modifier flags, are handled identically: the handler gives the same result, it
  calls \<^verbatim>\<open>preventDefault\<close> in both runs, and it makes the same calls of
  \<^verbatim>\<open>handlePageLoad\<close> in both; when the path and query of the link differ from the current
  ones and \<^verbatim>\<open>pushState\<close> accepts them, that is in each run the one call with the path and
  query of the link, after the push of the entry for it.
\<close>

theorem click_ignores_modifier_keys:
  assumes "link e1 = Some a"
      and "link e2 = Some a"
      and "target a \<noteq> ''_blank''"
      and "link_protocol a = protocol (location p)"
      and "link_host a = host (location p)"
      and "\<not> (link_hash a \<noteq> [] \<and> link_pathname a = pathname (location p))"
  shows "on_click b p e1 = on_click b p e2
         \<and> defaultPrevented (on_click b p e1) \<and> defaultPrevented (on_click b p e2)
         \<and> page_loads p (on_click b p e1) = page_loads p (on_click b p e2)
         \<and> (link_pathname a @ link_search a \<noteq> pathname (location p) @ search (location p)
              \<and> pushState_url b (location p) (link_pathname a @ link_search a) = Some new
            \<longrightarrow> (\<forall>e \<in> {e1, e2}.
                   page_loads p (on_click b p e) =
                     [HandlePageLoad (Str (link_pathname a @ link_search a))]
                   \<and> history (after (on_click b p e)) =
                       (Obj [(''path'', Str (link_pathname a @ link_search a))],
                        link_pathname a @ link_search a) # history p
                   \<and> raised (on_click b p e) = None))"
proof -
  have same: "on_click b p e1 = on_click b p e2"
    by (rule on_click_reads_link_only) (simp add: assms(1,2))
  have prevented: "defaultPrevented (on_click b p e1)" "defaultPrevented (on_click b p e2)"
    by (rule on_click_prevents [OF assms(1) assms(3-6)],
        rule on_click_prevents [OF assms(2) assms(3-6)])
  have loads: "page_loads p (on_click b p e) =
                 [HandlePageLoad (Str (link_pathname a @ link_search a))]
               \<and> history (after (on_click b p e)) =
                   (Obj [(''path'', Str (link_pathname a @ link_search a))],
                    link_pathname a @ link_search a) # history p
               \<and> raised (on_click b p e) = None"
    if "link e = Some a"
      and "link_pathname a @ link_search a \<noteq> pathname (location p) @ search (location p)"
      and "pushState_url b (location p) (link_pathname a @ link_search a) = Some new" for e
    using on_click_in_site_loads [OF that(1) assms(3-6) that(2,3)] by simp
  show ?thesis
    using same prevented loads [OF assms(1)] loads [OF assms(2)] by auto
qed

theorem click_ignores_modifier_keys_witness:
  "on_click example_browser example_page
     ((example_click (example_link ''/about'' []))\<lparr>ctrlKey := True, shiftKey := True\<rparr>) =
   on_click example_browser example_page (example_click (example_link ''/about'' []))
   \<and> defaultPrevented (on_click example_browser example_page
        ((example_click (example_link ''/about'' []))\<lparr>ctrlKey := True, shiftKey := True\<rparr>))
   \<and> page_loads example_page (on_click example_browser example_page
        ((example_click (example_link ''/about'' []))\<lparr>ctrlKey := True, shiftKey := True\<rparr>))
       = [HandlePageLoad (Str ''/about'')]
   \<and> page_loads example_page
        (on_click example_browser example_page (example_click (example_link ''/about'' [])))
       = [HandlePageLoad (Str ''/about'')]"
proof -
  let ?a = "example_link ''/about'' []"
  let ?e1 = "(example_click ?a)\<lparr>ctrlKey := True, shiftKey := True\<rparr>"
  let ?e2 = "example_click ?a"
  have l: "link ?e1 = Some ?a" "link ?e2 = Some ?a"
    by (simp_all add: example_click_def)
  have a: "target ?a \<noteq> ''_blank''"
    "link_protocol ?a = protocol (location example_page)"
    "link_host ?a = host (location example_page)"
    "\<not> (link_hash ?a \<noteq> [] \<and> link_pathname ?a = pathname (location example_page))"
    by (simp_all add: example_link_def example_location_def example_page_def
          link_protocol_def link_host_def link_hash_def)
  have new: "link_pathname ?a @ link_search ?a = ''/about''"
    by (simp add: link_pathname_def link_search_def example_link_def example_location_def)
  have differs: "link_pathname ?a @ link_search ?a
                   \<noteq> pathname (location example_page) @ search (location example_page)"
    by (simp add: new example_page_def example_location_def)
  have parsed: "pushState_url example_browser (location example_page)
                  (link_pathname ?a @ link_search ?a)
                = Some (example_location\<lparr>pathname := ''/about''\<rparr>)"
    unfolding new by code_simp
  show ?thesis
    using click_ignores_modifier_keys
            [where b = example_browser and p = example_page and ?e1.0 = ?e1 and ?e2.0 = ?e2
               and a = ?a and new = "example_location\<lparr>pathname := ''/about''\<rparr>",
             OF l a]
          differs parsed
    by (simp add: new)
qed

text \<open>
  C5. A \<^verbatim>\<open>popstate\<close> event whose state is an object with a truthy \<^verbatim>\<open>path\<close> does exactly
  what \<^verbatim>\<open>handlePageLoad\<close> does with that path, in particular for the state \<^verbatim>\<open>{path: v}\<close>;
  an event whose state is null or has no truthy \<^verbatim>\<open>path\<close> leaves the state as it is: no
  load, no mutation.
\<close>

theorem popstate_replays_page_load:
  "(truthy st \<and> truthy (get_prop st ''path'')
      \<longrightarrow> on_popstate b st p = handlePageLoad b (get_prop st ''path'') p)
   \<and> (truthy v \<longrightarrow> on_popstate b (Obj [(''path'', v)]) p = handlePageLoad b v p)
   \<and> (st = Null \<or> \<not> truthy (get_prop st ''path'') \<longrightarrow> on_popstate b st p = Done p)"
  by (auto simp: on_popstate_def)

theorem popstate_replays_page_load_witness:
  "on_popstate example_browser (Obj [(''path'', Str ''/about'')]) example_page =
     handlePageLoad example_browser (Str ''/about'') example_page
   \<and> on_popstate example_browser Null example_page = Done example_page"
  using popstate_replays_page_load
          [where st = Null and v = "Str ''/about''" and b = example_browser and p = example_page]
  by simp

text \<open>
  C1, where the code fails it. On a click on an in-site link that is not a same-page
  anchor, whose path and query differ from the current ones and are not accepted by
  \<^verbatim>\<open>pushState\<close> (as a path that starts with two slashes, which the URL parser reads
  as the name of another host), the handler calls \<^verbatim>\<open>preventDefault\<close> and is then
  ended by the SecurityError: no entry is pushed and \<^verbatim>\<open>handlePageLoad\<close> is not called.
\<close>

theorem in_site_click_refused_by_pushState:
  assumes "link e = Some a"
      and "target a \<noteq> ''_blank''"
      and "link_protocol a = protocol (location p)"
      and "link_host a = host (location p)"
      and "\<not> (link_hash a \<noteq> [] \<and> link_pathname a = pathname (location p))"
      and "link_pathname a @ link_search a \<noteq> pathname (location p) @ search (location p)"
      and "pushState_url b (location p) (link_pathname a @ link_search a) = None"
  shows "on_click b p e =
           \<lparr>defaultPrevented = True, after = log PreventDefault p, raised = Some SecurityError\<rparr>
         \<and> page_loads p (on_click b p e) = []
         \<and> history (after (on_click b p e)) = history p"
proof -
  have "pushState_url b (location (log PreventDefault p)) (link_pathname a @ link_search a) = None"
    using assms(7) by (simp add: log_def)
  then have "pushState b (Obj [(''path'', Str (link_pathname a @ link_search a))])
               (link_pathname a @ link_search a) (log PreventDefault p)
             = Thrown SecurityError (log PreventDefault p)"
    by (rule pushState_refuses)
  then have "on_click b p e =
      \<lparr>defaultPrevented = True, after = log PreventDefault p, raised = Some SecurityError\<rparr>"
    using assms(6) by (simp add: on_click_in_site [OF assms(1-5)])
  then show ?thesis by (simp add: page_loads_def log_def)
qed

theorem in_site_click_refused_by_pushState_witness:
  "on_click example_browser example_page (example_click (example_link ''//about'' [])) =
     \<lparr>defaultPrevented = True, after = log PreventDefault example_page,
      raised = Some SecurityError\<rparr>
   \<and> page_loads example_page
        (on_click example_browser example_page (example_click (example_link ''//about'' []))) = []"
proof -
  let ?a = "example_link ''//about'' []"
  have l: "link (example_click ?a) = Some ?a"
    by (simp add: example_click_def)
  have a: "target ?a \<noteq> ''_blank''"
    "link_protocol ?a = protocol (location example_page)"
    "link_host ?a = host (location example_page)"
    "\<not> (link_hash ?a \<noteq> [] \<and> link_pathname ?a = pathname (location example_page))"
    by (simp_all add: example_link_def example_location_def example_page_def
          link_protocol_def link_host_def link_hash_def)
  have new: "link_pathname ?a @ link_search ?a = ''//about''"
    by (simp add: link_pathname_def link_search_def example_link_def example_location_def)
  have differs: "link_pathname ?a @ link_search ?a
                   \<noteq> pathname (location example_page) @ search (location example_page)"
    by (simp add: new example_page_def example_location_def)
  have parsed: "example_parse_url (location example_page) ''//about''
                = Some (example_location\<lparr>host := ''about''\<rparr>)"
    by code_simp
  have refused: "pushState_url example_browser (location example_page)
                   (link_pathname ?a @ link_search ?a) = None"
    unfolding new by code_simp
  show ?thesis
    using in_site_click_refused_by_pushState
            [where b = example_browser and p = example_page and e = "example_click ?a"
               and a = ?a, OF l a differs refused]
    by blast
qed

subsection \<open>Loading a page\<close>

text \<open>
  C9. When the current document has no element with the id \<^verbatim>\<open>main-content\<close>,
  \<^verbatim>\<open>handlePageLoad\<close> logs the error and returns: the state is as before but for the
  trace, which has the call and the console error and no fetch, so the document, the
  title, the scroll position and the history are untouched.
\<close>

theorem missing_container_returns_early:
  assumes "getElementById ''main-content'' (document p) = None"
  shows "handlePageLoad b path p =
           Done (p\<lparr>trace := trace p @
                   [HandlePageLoad path,
                    ConsoleError ''Main content container #main-content not found!'' None]\<rparr>)"
  using assms by (simp add: handlePageLoad_def log_def)

theorem missing_container_returns_early_witness:
  "handlePageLoad example_browser (Str ''/about'') (example_page\<lparr>document := [Text ''bare'']\<rparr>) =
     Done (example_page\<lparr>document := [Text ''bare''],
             trace := [HandlePageLoad (Str ''/about''),
                       ConsoleError ''Main content container #main-content not found!'' None]\<rparr>)"
  using missing_container_returns_early
          [of "example_page\<lparr>document := [Text ''bare'']\<rparr>" example_browser "Str ''/about''"]
  by (simp add: example_page_def)

lemma show_fallback_comp:
  "show_fallback loc =
     (map_classes (classList_remove ''page-fade-out'') \<circ> set_children (fallback_view loc))
       \<circ> map_classes (classList_add ''page-fade-out'')"
  by (rule ext) (simp add: show_fallback_def)

lemma keeps_ident_show_fallback: "keeps_ident (show_fallback loc)"
  by (simp add: keeps_ident_def show_fallback_def)

lemma children_of_show_fallback:
  "children_of (show_fallback loc (Element e cs)) = fallback_view loc"
  by (simp add: show_fallback_def)

lemma catch_block_document:
  "document (catch_block x (Some mc) p) =
     update_at (map_classes (classList_remove ''page-fade-out'') \<circ> set_children (fallback_view (location p))) mc (document p)"
  by (simp add: catch_block_def Let_def log_def on_ref_def update_at_twice)

lemma catch_block_fields:
  "title (catch_block x r p) = title p" "location (catch_block x r p) = location p"
  "scroll (catch_block x r p) = scroll p" "history (catch_block x r p) = history p"
  by (simp_all add: catch_block_def Let_def log_def on_ref_def split: option.splits)

text \<open>The three ways in which the try block ends before the content is swapped.\<close>

lemma try_block_early:
  assumes "fetch b path = Rejected \<or> (\<exists>r. fetch b path = Response False r)
           \<or> fetch b path = Response True Unreadable"
  shows "\<exists>x. try_block b path mc p = Thrown x (Some mc, log (Fetch path) p)"
  using assms by (auto simp: try_block_def Let_def)

lemma try_block_no_container:
  assumes "fetch b path = Response True (Html doc)" and "fetched_content doc = None"
  shows "\<exists>x. try_block b path mc p =
           Thrown x (Some mc, log (SetTitle (doc_title doc)) ((log (Fetch path) p)\<lparr>title := doc_title doc\<rparr>))"
  using assms by (auto simp: try_block_def Let_def)

lemma handlePageLoad_fallback:
  assumes mc: "getElementById ''main-content'' (document p) = Some mc"
      and thrown: "try_block b path mc
                     (log (ClassListAdd ''page-fade-out'')
                       (on_ref (Some mc) (map_classes (classList_add ''page-fade-out''))
                          (log (HandlePageLoad path) p))) = Thrown x (Some mc, p2)"
      and doc: "document p2 = update_at (map_classes (classList_add ''page-fade-out'')) mc (document p)"
      and loc: "location p2 = location p"
  shows "\<exists>p'. handlePageLoad b path p = Done p'
           \<and> document p' = update_at (show_fallback (location p)) mc (document p)
           \<and> location p' = location p \<and> title p' = title p2 \<and> scroll p' = scroll p2
           \<and> history p' = history p2"
proof -
  have "handlePageLoad b path p = Done (catch_block x (Some mc) p2)"
    using mc thrown by (simp add: handlePageLoad_def Let_def log_def)
  moreover have "document (catch_block x (Some mc) p2) =
      update_at (show_fallback (location p)) mc (document p)"
    by (simp add: catch_block_document doc loc update_at_twice show_fallback_comp)
  ultimately show ?thesis by (simp add: catch_block_fields loc)
qed

lemma fallback_view_text: "Text ''Erreur 404'' \<in> set (descendants (fallback_view loc))"
  by (simp add: fallback_view_def)

lemma fallback_view_link:
  "\<exists>e cs. Element e cs \<in> set (descendants (fallback_view loc)) \<and> tag e = ''a''
      \<and> href e = Some (loc\<lparr>pathname := ''/'', search := [], hash := []\<rparr>)"
proof -
  let ?e = "\<lparr>tag = ''a'', ident = None,
             classes = [''mt-6'', ''inline-block'', ''text-emerald-500'', ''hover:underline''],
             href = Some \<lparr>protocol = protocol loc, host = host loc, pathname = ''/'',
                          search = [], hash = []\<rparr>,
             target = [], attrs = []\<rparr>"
  let ?cs = "[Text (''Retour '' @ [CHR 0xE0] @ '' l'accueil'')]"
  have "Element ?e ?cs \<in> set (descendants (fallback_view loc))"
    by (simp add: fallback_view_def)
  moreover have "tag ?e = ''a''" by simp
  moreover have "href ?e = Some (loc\<lparr>pathname := ''/'', search := [], hash := []\<rparr>)" by simp
  ultimately show ?thesis by blast
qed

lemma container_after_fallback:
  assumes mc: "getElementById ''main-content'' d = Some mc"
  shows "getElementById ''main-content'' (update_at (show_fallback loc) mc d) = Some mc"
    and "map_option children_of (node_at (update_at (show_fallback loc) mc d) mc) = Some (fallback_view loc)"
proof -
  show "getElementById ''main-content'' (update_at (show_fallback loc) mc d) = Some mc"
    by (rule getElementById_update [OF keeps_ident_show_fallback mc])
  obtain e cs where "node_at d mc = Some (Element e cs)"
    using getElementById_element [OF mc] by blast
  then show "map_option children_of (node_at (update_at (show_fallback loc) mc d) mc) = Some (fallback_view loc)"
    by (simp add: node_at_update_same children_of_show_fallback)
qed

lemma log_fields [simp]:
  "document (log ev p) = document p" "location (log ev p) = location p"
  "title (log ev p) = title p" "scroll (log ev p) = scroll p" "history (log ev p) = history p"
  by (simp_all add: log_def)

text \<open>
  C2. When the fetch of a path is rejected or answered with a status that is not ok,
  \<^verbatim>\<open>handlePageLoad\<close> resolves (it does not raise), and the content container
  \<^verbatim>\<open>#main-content\<close> of the document is, at the end, still the element that the id finds
  and has the literal fallback markup for children; that markup has the text
  \<^verbatim>\<open>Erreur 404\<close> and a link whose target is the path \<^verbatim>\<open>/\<close> of the site.
\<close>

theorem failed_fetch_renders_fallback:
  assumes "fetch b path = Rejected \<or> (\<exists>r. fetch b path = Response False r)"
  shows "(\<exists>p'. handlePageLoad b path p = Done p')
         \<and> (\<forall>mc. getElementById ''main-content'' (document p) = Some mc \<longrightarrow>
               getElementById ''main-content''
                   (document (state_of (handlePageLoad b path p))) = Some mc
               \<and> map_option children_of
                     (node_at (document (state_of (handlePageLoad b path p))) mc)
                   = Some (fallback_view (location p)))
         \<and> Text ''Erreur 404'' \<in> set (descendants (fallback_view (location p)))
         \<and> (\<exists>e cs. Element e cs \<in> set (descendants (fallback_view (location p)))
                \<and> tag e = ''a''
                \<and> href e = Some ((location p)\<lparr>pathname := ''/'', search := [], hash := []\<rparr>))"
proof -
  have shown: "getElementById ''main-content''
                   (document (state_of (handlePageLoad b path p))) = Some mc
               \<and> map_option children_of
                     (node_at (document (state_of (handlePageLoad b path p))) mc)
                   = Some (fallback_view (location p))"
    if mc: "getElementById ''main-content'' (document p) = Some mc" for mc
  proof -
    let ?p1 = "log (ClassListAdd ''page-fade-out'')
                 (on_ref (Some mc) (map_classes (classList_add ''page-fade-out''))
                    (log (HandlePageLoad path) p))"
    obtain x where x: "try_block b path mc ?p1 = Thrown x (Some mc, log (Fetch path) ?p1)"
      using try_block_early [where b = b and path = path and mc = mc and p = ?p1] assms
      by blast
    have d: "document (log (Fetch path) ?p1) =
               update_at (map_classes (classList_add ''page-fade-out'')) mc (document p)"
      and l: "location (log (Fetch path) ?p1) = location p"
      by (simp_all add: log_def on_ref_def)
    obtain p' where p': "handlePageLoad b path p = Done p'"
        "document p' = update_at (show_fallback (location p)) mc (document p)"
      using handlePageLoad_fallback [OF mc x d l] by blast
    show ?thesis
      using p' container_after_fallback [OF mc, of "location p"] by simp
  qed
  show ?thesis
    using handlePageLoad_resolves [of b path p] shown fallback_view_text [of "location p"]
      fallback_view_link [of "location p"]
    by blast
qed

theorem failed_fetch_renders_fallback_witness:
  "(\<exists>p'. handlePageLoad example_browser (Str ''/nonexistent'') example_page = Done p')
   \<and> getElementById ''main-content''
       (document (state_of (handlePageLoad example_browser (Str ''/nonexistent'') example_page)))
     = Some [1]
   \<and> map_option children_of
       (node_at (document (state_of (handlePageLoad example_browser (Str ''/nonexistent'') example_page))) [1])
     = Some (fallback_view example_location)"
proof -
  have mc: "getElementById ''main-content'' (document example_page) = Some [1]"
    by code_simp
  have f: "fetch example_browser (Str ''/nonexistent'') = Rejected
           \<or> (\<exists>r. fetch example_browser (Str ''/nonexistent'') = Response False r)"
    by (simp add: example_browser_def)
  have l: "location example_page = example_location"
    by (simp add: example_page_def)
  show ?thesis
    using failed_fetch_renders_fallback
            [where p = example_page and b = example_browser
               and path = "Str ''/nonexistent''", OF f] mc l
    by simp
qed

text \<open>
  C6. When the fetch is answered ok with a document that has no element with the id
  \<^verbatim>\<open>main-content\<close>, \<^verbatim>\<open>handlePageLoad\<close> resolves (it does not raise) and the current
  container shows the fallback view; the document differs from the one before only at the
  container, so every node that is neither the container nor below it keeps its label;
  the scroll position, the history and the location stay, and the title is the fetched
  one, which was set before the missing container was noticed.
\<close>

theorem missing_fetched_container_fails_safely:
  assumes "getElementById ''main-content'' (document p) = Some mc"
      and "fetch b path = Response True (Html doc)"
      and "getElementById ''main-content'' (doc_nodes doc) = None"
  shows "\<exists>p'. handlePageLoad b path p = Done p'
           \<and> getElementById ''main-content'' (document p') = Some mc
           \<and> map_option children_of (node_at (document p') mc) = Some (fallback_view (location p'))
           \<and> document p' = update_at (show_fallback (location p)) mc (document p)
           \<and> (\<forall>q. \<not> prefix mc q \<longrightarrow> label_at (document p') q = label_at (document p) q)
           \<and> title p' = doc_title doc \<and> scroll p' = scroll p
           \<and> history p' = history p \<and> location p' = location p"
proof -
  let ?p1 = "log (ClassListAdd ''page-fade-out'')
               (on_ref (Some mc) (map_classes (classList_add ''page-fade-out''))
                  (log (HandlePageLoad path) p))"
  let ?p2 = "log (SetTitle (doc_title doc)) ((log (Fetch path) ?p1)\<lparr>title := doc_title doc\<rparr>)"
  have "fetched_content doc = None"
    using assms(3) by (simp add: fetched_content_def)
  then obtain x where x: "try_block b path mc ?p1 = Thrown x (Some mc, ?p2)"
    using try_block_no_container [where b = b and path = path and mc = mc and p = ?p1]
      assms(2) by blast
  have d: "document ?p2 = update_at (map_classes (classList_add ''page-fade-out'')) mc (document p)"
    and l: "location ?p2 = location p"
    and t: "title ?p2 = doc_title doc" "scroll ?p2 = scroll p" "history ?p2 = history p"
    by (simp_all add: log_def on_ref_def)
  obtain p' where p': "handlePageLoad b path p = Done p'"
      "document p' = update_at (show_fallback (location p)) mc (document p)"
      "location p' = location p" "title p' = title ?p2" "scroll p' = scroll ?p2"
      "history p' = history ?p2"
    using handlePageLoad_fallback [OF assms(1) x d l] by blast
  have frame: "\<forall>q. \<not> prefix mc q \<longrightarrow> label_at (document p') q = label_at (document p) q"
    by (simp add: p'(2) label_at_update_outside)
  show ?thesis
    using p' t frame container_after_fallback [OF assms(1), of "location p"] by simp
qed

theorem missing_fetched_container_fails_safely_witness:
  "map_option children_of
     (node_at (document (state_of (handlePageLoad example_browser (Str ''/empty'') example_page))) [1])
     = Some (fallback_view example_location)
   \<and> label_at (document (state_of (handlePageLoad example_browser (Str ''/empty'') example_page))) [0]
     = label_at (document example_page) [0]
   \<and> title (state_of (handlePageLoad example_browser (Str ''/empty'') example_page)) = ''Empty''"
proof -
  have mc: "getElementById ''main-content'' (document example_page) = Some [1]"
    by (simp add: example_page_def example_document_def example_main_def example_link_def
          plain_def)
  have f: "fetch example_browser (Str ''/empty'') = Response True (Html example_empty)"
    by (simp add: example_browser_def)
  have n: "getElementById ''main-content'' (doc_nodes example_empty) = None"
    by (simp add: example_empty_def)
  obtain p' where p': "handlePageLoad example_browser (Str ''/empty'') example_page = Done p'"
    "map_option children_of (node_at (document p') [1]) = Some (fallback_view (location p'))"
    "\<forall>q. \<not> prefix [1] q \<longrightarrow> label_at (document p') q = label_at (document example_page) q"
    "title p' = ''Empty''" "location p' = location example_page"
    using missing_fetched_container_fails_safely
            [where p = example_page and mc = "[1]" and b = example_browser
               and path = "Str ''/empty''", OF mc f n]
    by (auto simp: example_empty_def)
  have "\<not> prefix [1::nat] [0]" by simp
  then have "label_at (document p') [0] = label_at (document example_page) [0]"
    using p'(3) by blast
  then show ?thesis using p' by (simp add: example_page_def)
qed

lemma try_block_success:
  assumes "fetch b path = Response True (Html doc)"
      and "fetched_content doc = Some inner"
      and "runPageSpecificScripts (update_at (assign_innerHTML b inner) mc (document p)) = Done d4"
      and "updateActiveLink (pathname (location p)) d4 = Done d5"
  shows "try_block b path mc p =
     Done (if carousel_detaches (update_at (assign_innerHTML b inner) mc (document p)) mc
           then None else Some mc,
           p\<lparr>title := doc_title doc,
             document := (if carousel_detaches (update_at (assign_innerHTML b inner) mc (document p)) mc
                          then d5
                          else update_at (map_classes (classList_remove ''page-fade-out'')) mc d5),
             scroll := (0, 0),
             trace := trace p @ [Fetch path, SetTitle (doc_title doc), SetInnerHTML inner,
                       RunPageSpecificScripts, UpdateActiveLink, ScrollTo 0 0,
                       ClassListRemove ''page-fade-out'']\<rparr>)"
  using assms by (simp add: try_block_def Let_def log_def on_ref_def)

lemma try_block_scripts_raise:
  assumes "fetch b path = Response True (Html doc)"
      and "fetched_content doc = Some inner"
      and "runPageSpecificScripts (update_at (assign_innerHTML b inner) mc (document p)) = Thrown x d4"
  shows "try_block b path mc p =
     Thrown x (if carousel_detaches (update_at (assign_innerHTML b inner) mc (document p)) mc
               then None else Some mc,
               p\<lparr>title := doc_title doc, document := d4,
                 trace := trace p @ [Fetch path, SetTitle (doc_title doc), SetInnerHTML inner,
                           RunPageSpecificScripts]\<rparr>)"
  using assms by (simp add: try_block_def Let_def log_def on_ref_def)

text \<open>The successful load: what \<^verbatim>\<open>handlePageLoad\<close> does when nothing in the try block raises.\<close>

lemma handlePageLoad_success:
  assumes "getElementById ''main-content'' (document p) = Some mc"
      and "fetch b path = Response True (Html doc)"
      and "fetched_content doc = Some inner"
      and "runPageSpecificScripts (swap_content b mc inner (document p)) = Done d4"
      and "updateActiveLink (pathname (location p)) d4 = Done d5"
  shows "\<exists>p'. handlePageLoad b path p = Done p'
           \<and> title p' = doc_title doc
           \<and> document p' =
               (if carousel_detaches (swap_content b mc inner (document p)) mc then d5
                else update_at (map_classes (classList_remove ''page-fade-out'')) mc d5)
           \<and> scroll p' = (0, 0)
           \<and> trace p' = trace p @
               [HandlePageLoad path, ClassListAdd ''page-fade-out'', Fetch path,
                SetTitle (doc_title doc), SetInnerHTML inner, RunPageSpecificScripts,
                UpdateActiveLink, ScrollTo 0 0, ClassListRemove ''page-fade-out'']
           \<and> history p' = history p \<and> location p' = location p"
proof -
  let ?p1 = "log (ClassListAdd ''page-fade-out'')
               (on_ref (Some mc) (map_classes (classList_add ''page-fade-out''))
                  (log (HandlePageLoad path) p))"
  have d1: "update_at (assign_innerHTML b inner) mc (document ?p1)
              = swap_content b mc inner (document p)"
    and l1: "location ?p1 = location p"
    by (simp_all add: swap_content_def log_def on_ref_def)
  have s: "runPageSpecificScripts (update_at (assign_innerHTML b inner) mc (document ?p1)) = Done d4"
    using assms(4) d1 by simp
  have u: "updateActiveLink (pathname (location ?p1)) d4 = Done d5"
    using assms(5) l1 by simp
  note t = try_block_success [where b = b and path = path and p = ?p1 and mc = mc,
             OF assms(2) assms(3) s u]
  have "handlePageLoad b path p = Done (snd (state_of (try_block b path mc ?p1)))"
    using assms(1) t by (simp add: handlePageLoad_def Let_def)
  then show ?thesis
    unfolding t d1 by (simp add: log_def on_ref_def)
qed

text \<open>
  C3, where the code fails it. The fetch is answered ok with a document that has the
  container, the current document has its container too, and the page fetched has the
  inscription modal and the button that opens it but no button that closes it. Then
  \<^verbatim>\<open>initFormHandlers\<close> raises a TypeError inside the \<^verbatim>\<open>try\<close> block, after the title and
  the content were set and the carousel was initialised; the \<^verbatim>\<open>catch\<close> block logs it and
  puts the fallback view in the place of the fetched content; the scroll position is not
  reset and the active link is not updated.
\<close>

theorem page_load_missing_close_button:
  fixes b :: browser and p :: page and mc :: path and inner :: "node list"
  defines "d \<equiv> initTestimonialCarousel (swap_content b mc inner (document p))"
  assumes "getElementById ''main-content'' (document p) = Some mc"
      and "fetch b path = Response True (Html doc)"
      and "fetched_content doc = Some inner"
      and "getElementById ''inscription-modal'' d \<noteq> None"
      and "getElementById ''open-modal-btn'' d \<noteq> None"
      and "getElementById ''close-modal-btn'' d = None"
  shows "\<exists>p'. handlePageLoad b path p = Done p'
           \<and> title p' = doc_title doc
           \<and> scroll p' = scroll p
           \<and> trace p' = trace p @
               [HandlePageLoad path, ClassListAdd ''page-fade-out'', Fetch path,
                SetTitle (doc_title doc), SetInnerHTML inner, RunPageSpecificScripts,
                ConsoleError ''Failed to load page:'' (Some (TypeError ''closeBtn is null'')),
                SetInnerHTML (fallback_view (location p)), ClassListRemove ''page-fade-out'']
           \<and> document p' =
               (if carousel_detaches (swap_content b mc inner (document p)) mc then d
                else update_at (map_classes (classList_remove ''page-fade-out'')) mc
                       (update_at (set_children (fallback_view (location p))) mc d))"
proof -
  let ?p1 = "log (ClassListAdd ''page-fade-out'')
               (on_ref (Some mc) (map_classes (classList_add ''page-fade-out''))
                  (log (HandlePageLoad path) p))"
  let ?x = "TypeError ''closeBtn is null''"
  have d1: "update_at (assign_innerHTML b inner) mc (document ?p1)
              = swap_content b mc inner (document p)"
    by (simp add: swap_content_def log_def on_ref_def)
  have "runPageSpecificScripts (swap_content b mc inner (document p)) = Thrown ?x d"
    using assms(5,6,7) by (simp add: runPageSpecificScripts_def initFormHandlers_def d_def)
  then have s: "runPageSpecificScripts (update_at (assign_innerHTML b inner) mc (document ?p1))
                  = Thrown ?x d"
    using d1 by simp
  note t = try_block_scripts_raise [where b = b and path = path and p = ?p1 and mc = mc,
             OF assms(3) assms(4) s]
  have "handlePageLoad b path p =
          Done (catch_block ?x (fst (state_of (try_block b path mc ?p1)))
                  (snd (state_of (try_block b path mc ?p1))))"
    using assms(2) t by (simp add: handlePageLoad_def Let_def)
  then show ?thesis
    unfolding t d1 by (simp add: catch_block_def Let_def log_def on_ref_def)
qed

theorem page_load_missing_close_button_witness:
  "handlePageLoad example_browser (Str ''/join'') example_page
     = Done (state_of (handlePageLoad example_browser (Str ''/join'') example_page))
   \<and> title (state_of (handlePageLoad example_browser (Str ''/join'') example_page)) = ''Join''
   \<and> scroll (state_of (handlePageLoad example_browser (Str ''/join'') example_page)) = (0, 120)
   \<and> ScrollTo 0 0 \<notin> set (trace (state_of (handlePageLoad example_browser (Str ''/join'') example_page)))
   \<and> map_option children_of
        (node_at (document (state_of (handlePageLoad example_browser (Str ''/join'') example_page))) [1])
       = Some (fallback_view example_location)"
proof -
  let ?inner = "[Element ((plain ''div'' [''hidden''])\<lparr>ident := Some ''inscription-modal''\<rparr>) [],
                 Element ((plain ''button'' [])\<lparr>ident := Some ''open-modal-btn''\<rparr>) []]"
  let ?d3 = "swap_content example_browser [1] ?inner (document example_page)"
  let ?d = "initTestimonialCarousel ?d3"
  have mc: "getElementById ''main-content'' (document example_page) = Some [1]"
    by code_simp
  have f: "fetch example_browser (Str ''/join'') = Response True (Html example_join)"
    by (simp add: example_browser_def)
  have c: "fetched_content example_join = Some ?inner"
    by code_simp
  have m: "getElementById ''inscription-modal'' ?d \<noteq> None"
    and o: "getElementById ''open-modal-btn'' ?d \<noteq> None"
    and n: "getElementById ''close-modal-btn'' ?d = None"
    by code_simp+
  have doc: "map_option children_of
               (node_at (if carousel_detaches ?d3 [1] then ?d
                         else update_at (map_classes (classList_remove ''page-fade-out'')) [1]
                                (update_at (set_children (fallback_view (location example_page))) [1] ?d))
                  [1])
             = Some (fallback_view example_location)"
    by code_simp
  obtain p' where p': "handlePageLoad example_browser (Str ''/join'') example_page = Done p'"
    "title p' = doc_title example_join" "scroll p' = scroll example_page"
    "trace p' = trace example_page @
       [HandlePageLoad (Str ''/join''), ClassListAdd ''page-fade-out'', Fetch (Str ''/join''),
        SetTitle (doc_title example_join), SetInnerHTML ?inner, RunPageSpecificScripts,
        ConsoleError ''Failed to load page:'' (Some (TypeError ''closeBtn is null'')),
        SetInnerHTML (fallback_view (location example_page)), ClassListRemove ''page-fade-out'']"
    "document p' =
       (if carousel_detaches ?d3 [1] then ?d
        else update_at (map_classes (classList_remove ''page-fade-out'')) [1]
               (update_at (set_children (fallback_view (location example_page))) [1] ?d))"
    using page_load_missing_close_button
            [where p = example_page and mc = "[1]" and b = example_browser
               and path = "Str ''/join''" and doc = example_join and inner = ?inner,
             OF mc f c m o n]
    by blast
  have "map_option children_of (node_at (document p') [1]) = Some (fallback_view example_location)"
    unfolding p'(5) by (rule doc)
  then show ?thesis
    using p'(1-4) by (simp add: example_page_def example_join_def)
qed

lemma label_at_set_children:
  assumes "\<not> strict_prefix q r"
  shows "label_at (update_at (set_children ks) q d) r = label_at d r"
proof (cases "r = q")
  case True
  then show ?thesis by (simp add: label_at_def node_at_update_same option.map_comp comp_def)
next
  case False
  then have "\<not> prefix q r" using assms by (simp add: strict_prefix_def)
  then show ?thesis by (rule label_at_update_outside)
qed

lemma children_of_map_classes [simp]: "children_of (map_classes g n) = children_of n"
  by (cases n) simp_all

lemma node_at_below_map_classes:
  "strict_prefix q r \<Longrightarrow> node_at (update_at (map_classes g) q d) r = node_at d r"
proof (induction "map_classes g" q d arbitrary: r rule: update_at.induct)
  case (3 k p n ns)
  then obtain j r' where r: "r = Suc j # r'" "strict_prefix (k # p) (j # r')"
    by (cases r) (auto simp: strict_prefix_def)
  then show ?case using 3(1)[OF r(2)] by simp
next
  case (4 n ns)
  then obtain r' where r: "r = 0 # r'" "r' \<noteq> []"
    by (cases r) (auto simp: strict_prefix_def)
  then show ?case by (simp add: node_at_Cons_0)
next
  case (5 k p e cs ns)
  then obtain r' where r: "r = 0 # r'" "strict_prefix (k # p) r'"
    by (cases r) (auto simp: strict_prefix_def)
  then have "r' \<noteq> []" by auto
  then show ?case using 5(1)[OF r(2)] r by (simp add: node_at_Cons_0)
next
  case (6 k p t ns)
  then obtain r' where r: "r = 0 # r'" "strict_prefix (k # p) r'"
    by (cases r) (auto simp: strict_prefix_def)
  then have "r' \<noteq> []" by auto
  then show ?case using r by (simp add: node_at_Cons_0)
qed (simp_all add: strict_prefix_def)

lemma label_map_classes: "label (map_classes g n) = map_classes g (label n)"
  by (cases n) simp_all

lemma label_at_map_classes:
  "label_at (update_at (map_classes g) q d) r =
     (if r = q then map_option (map_classes g) (label_at d r) else label_at d r)"
proof (cases "r = q")
  case True
  then show ?thesis
    by (simp add: label_at_def node_at_update_same option.map_comp comp_def label_map_classes)
next
  case False
  show ?thesis
  proof (cases "prefix q r")
    case True
    then have "strict_prefix q r" using False by (simp add: strict_prefix_def)
    then show ?thesis using False by (simp add: label_at_def node_at_below_map_classes)
  next
    case no: False
    then show ?thesis using False by (simp add: label_at_update_outside)
  qed
qed

lemma initTestimonialCarousel_frame:
  assumes "\<forall>q \<in> set (carousel_containers d). \<not> strict_prefix q r"
  shows "label_at (initTestimonialCarousel d) r = label_at d r"
  using assms
  by (auto simp: initTestimonialCarousel_def carousel_containers_def Let_def label_at_set_children
           split: option.splits)

lemma runPageSpecificScripts_Done:
  "runPageSpecificScripts d = Done d' \<Longrightarrow> d' = initTestimonialCarousel d"
  by (auto simp: runPageSpecificScripts_def initFormHandlers_def split: if_splits)

lemma strip_active_toggle:
  "strip_active (map_classes (classList_add ''nav-link-active'') n) = strip_active n"
  "strip_active (map_classes (classList_remove ''nav-link-active'') n) = strip_active n"
  by (cases n; simp add: strip_active_def classList_add_def classList_remove_def)+

lemma updateActiveLink_each_frame:
  assumes "updateActiveLink_each cur qs d = Done d'"
  shows "(r \<notin> set qs \<longrightarrow> label_at d' r = label_at d r)
         \<and> map_option strip_active (label_at d' r) = map_option strip_active (label_at d r)"
  using assms
proof (induction qs arbitrary: d)
  case Nil
  then show ?case by simp
next
  case (Cons q qs)
  show ?case
  proof (cases "node_at d q")
    case None
    then show ?thesis using Cons by simp
  next
    case (Some n)
    show ?thesis
    proof (cases n)
      case (Text t)
      then show ?thesis using Cons Some by simp
    next
      case (Element e cs)
      show ?thesis
      proof (cases "href e")
        case None
        then show ?thesis using Cons(2) Some Element by simp
      next
        case (Some u)
        let ?g = "if pathname u = cur then classList_add ''nav-link-active''
                  else classList_remove ''nav-link-active''"
        let ?d1 = "update_at (map_classes ?g) q d"
        have run: "updateActiveLink_each cur qs ?d1 = Done d'"
          using Cons(2) \<open>node_at d q = Some n\<close> Element Some by simp
        note ih = Cons(1)[OF run]
        have a: "r \<noteq> q \<Longrightarrow> label_at ?d1 r = label_at d r"
          by (simp add: label_at_map_classes)
        have b: "map_option strip_active (label_at ?d1 r) = map_option strip_active (label_at d r)"
          by (cases "label_at d r")
             (auto simp: label_at_map_classes option.map_comp strip_active_toggle)
        show ?thesis using ih a b by auto
      qed
    qed
  qed
qed

text \<open>
  C4 as stated does not hold: the load of \<^verbatim>\<open>/about\<close> succeeds, and the first link of
  the header navigation, which is outside the container, has the class
  \<^verbatim>\<open>nav-link-active\<close> afterwards and did not have it before.
\<close>

theorem page_load_frame_counterexample:
  "getElementById ''main-content'' (document example_page) = Some [1]
   \<and> fetch example_browser (Str ''/about'') = Response True (Html example_about)
   \<and> ScrollTo 0 0 \<in> set (trace (state_of (handlePageLoad example_browser (Str ''/about'') example_page)))
   \<and> label_at (document (state_of (handlePageLoad example_browser (Str ''/about'') example_page))) [0, 0, 0]
       \<noteq> label_at (document example_page) [0, 0, 0]"
  by code_simp

text \<open>
  C4, amended. After a \<^verbatim>\<open>handlePageLoad\<close> in which nothing raises, every node \<open>r\<close> that is
  neither the content container nor below it, and that is not below one of the two
  carousel containers, has the label it had before up to the class \<^verbatim>\<open>nav-link-active\<close>,
  and exactly the label it had before unless it is one of the links that
  \<^verbatim>\<open>updateActiveLink\<close> selects with \<^verbatim>\<open>header nav a, footer a\<close>; the history and the
  location stay as they were.
\<close>

theorem page_load_frame:
  assumes "getElementById ''main-content'' (document p) = Some mc"
      and "fetch b path = Response True (Html doc)"
      and "fetched_content doc = Some inner"
      and "runPageSpecificScripts (swap_content b mc inner (document p)) = Done d4"
      and "updateActiveLink (pathname (location p)) d4 = Done d5"
      and "\<not> prefix mc r"
      and "\<forall>q \<in> set (carousel_containers (swap_content b mc inner (document p))). \<not> strict_prefix q r"
  shows "\<exists>p'. handlePageLoad b path p = Done p'
           \<and> map_option strip_active (label_at (document p') r)
               = map_option strip_active (label_at (document p) r)
           \<and> (r \<notin> set (nav_links False False False d4)
                \<longrightarrow> label_at (document p') r = label_at (document p) r)
           \<and> history p' = history p \<and> location p' = location p"
proof -
  let ?d3 = "swap_content b mc inner (document p)"
  obtain p' where p': "handlePageLoad b path p = Done p'"
    "document p' = (if carousel_detaches ?d3 mc then d5
                    else update_at (map_classes (classList_remove ''page-fade-out'')) mc d5)"
    "history p' = history p" "location p' = location p"
    using handlePageLoad_success
            [where b = b and path = path and p = p and mc = mc,
             OF assms(1) assms(2) assms(3) assms(4) assms(5)]
    by blast
  have d3: "label_at ?d3 r = label_at (document p) r"
    using assms(6) by (simp add: swap_content_def label_at_update_outside)
  have "d4 = initTestimonialCarousel ?d3"
    by (rule runPageSpecificScripts_Done [OF assms(4)])
  then have d4: "label_at d4 r = label_at ?d3 r"
    using assms(7) by (simp add: initTestimonialCarousel_frame)
  have each: "updateActiveLink_each (pathname (location p)) (nav_links False False False d4) d4 = Done d5"
    using assms(5) by (simp add: updateActiveLink_def)
  note d5 = updateActiveLink_each_frame [OF each, of r]
  have last: "label_at (document p') r = label_at d5 r"
    using assms(6) by (simp add: p'(2) label_at_update_outside)
  show ?thesis using p' d3 d4 d5 last by simp
qed

theorem page_load_frame_witness:
  "map_option strip_active
     (label_at (document (state_of (handlePageLoad example_browser (Str ''/about'') example_page))) [0, 0, 0])
     = map_option strip_active (label_at (document example_page) [0, 0, 0])
   \<and> label_at (document (state_of (handlePageLoad example_browser (Str ''/about'') example_page))) [0]
     = label_at (document example_page) [0]"
proof -
  let ?d3 = "swap_content example_browser [1] [Text ''about us''] (document example_page)"
  have mc: "getElementById ''main-content'' (document example_page) = Some [1]"
    by code_simp
  have f: "fetch example_browser (Str ''/about'') = Response True (Html example_about)"
    by (simp add: example_browser_def)
  have c: "fetched_content example_about = Some [Text ''about us'']"
    by code_simp
  have s: "runPageSpecificScripts ?d3 = Done ?d3"
    by code_simp
  have u: "updateActiveLink (pathname (location example_page)) ?d3
            = Done (state_of (updateActiveLink (pathname (location example_page)) ?d3))"
    by code_simp
  have cc: "carousel_containers ?d3 = []"
    by code_simp
  have r: "\<forall>q \<in> set (carousel_containers ?d3). \<not> strict_prefix q r" for r
    unfolding cc by simp
  have n1: "\<not> prefix [1::nat] [0, 0, 0]" and n2: "\<not> prefix [1::nat] [0]"
    by simp_all
  have nl: "[0] \<notin> set (nav_links False False False ?d3)"
    by code_simp
  obtain p1 where p1: "handlePageLoad example_browser (Str ''/about'') example_page = Done p1"
    "map_option strip_active (label_at (document p1) [0, 0, 0])
       = map_option strip_active (label_at (document example_page) [0, 0, 0])"
    using page_load_frame
            [where p = example_page and mc = "[1]" and b = example_browser
               and path = "Str ''/about''" and r = "[0, 0, 0]", OF mc f c s u n1 r]
    by blast
  obtain p2 where p2: "handlePageLoad example_browser (Str ''/about'') example_page = Done p2"
    "[0] \<notin> set (nav_links False False False ?d3)
       \<longrightarrow> label_at (document p2) [0] = label_at (document example_page) [0]"
    using page_load_frame
            [where p = example_page and mc = "[1]" and b = example_browser
               and path = "Str ''/about''" and r = "[0]", OF mc f c s u n2 r]
    by blast
  show ?thesis using p1 p2 nl by simp
qed

end
